theory Spec2Isabelle
  imports Main
begin

section \<open>Data model (app/models)\<close>

text \<open>
  The three SQLAlchemy models. Primary keys and foreign keys are Python integers,
  the timestamps filled in by the server (\<^verbatim>\<open>server_default=func.now()\<close>) are integers
  read from the store's clock. Every column of the three tables is \<^verbatim>\<open>nullable=False\<close>
  (the creation dates apart, which the server always fills in), so a stored row has
  a value in every field.
\<close>

record Livre =
  l_id :: int
  titre :: string
  auteur :: string
  annee_publication :: int
  disponible :: bool
  l_date_creation :: int

record Emprunteur =
  b_id :: int
  nom :: string
  email :: string
  b_date_creation :: int

record Emprunt =
  e_id :: int
  livre_id :: int
  emprunteur_id :: int
  date_emprunt :: int

section \<open>Request payloads (app/schemas)\<close>

record LivreCreateDTO =
  new_titre :: string
  new_auteur :: string
  new_annee_publication :: int

record EmprunteurCreateDTO =
  new_nom :: string
  new_email :: string

record EmpruntCreateDTO =
  dto_livre_id :: int
  dto_emprunteur_id :: int

text \<open>
  Every field of \<^verbatim>\<open>LivreUpdateDTO\<close> is \<^verbatim>\<open>Optional[...] = Field(None, ...)\<close>: a request
  may leave the field out, send an explicit \<^verbatim>\<open>null\<close>, or send a value. The service reads
  the payload with \<^verbatim>\<open>dict(exclude_unset=True)\<close>, which keeps the last two and drops only
  the first, so the three cases are kept apart.
\<close>

datatype 'a optional = Unset | Explicit_None | Given 'a

record LivreUpdateDTO =
  upd_titre :: "string optional"
  upd_auteur :: "string optional"
  upd_annee_publication :: "int optional"
  upd_disponible :: "bool optional"

section \<open>The record store (app/database.py, SQLite through SQLAlchemy)\<close>

text \<open>
  The state of the store: the rows of the three tables in rowid order, and whether
  SQLite enforces foreign keys (\<^verbatim>\<open>PRAGMA foreign_keys\<close>; \<^verbatim>\<open>create_engine\<close> in database.py
  leaves it at the SQLite default). No result below depends on the setting.
\<close>

record db =
  livres :: "Livre list"
  emprunteurs :: "Emprunteur list"
  emprunts :: "Emprunt list"
  foreign_keys :: bool

datatype db_error = IntegrityError | OperationalError

text \<open>
  SQLite integers are signed and 64 bits wide. A Python integer outside that range cannot
  be bound as the parameter of a query: the driver raises \<^verbatim>\<open>OverflowError\<close> before any row
  is read. The keys the store hands out, and so the keys of stored rows, are within it.
\<close>

definition sqlite_int :: "int \<Rightarrow> bool" where
  "sqlite_int i = (- 9223372036854775808 \<le> i \<and> i \<le> 9223372036854775807)"

text \<open>An \<^verbatim>\<open>INTEGER PRIMARY KEY\<close> column gets one more than the largest key in the table.\<close>

definition next_id :: "int list \<Rightarrow> int" where
  "next_id ids = (case ids of [] \<Rightarrow> 1 | x # xs \<Rightarrow> fold max xs x + 1)"

definition insert_livre :: "db \<Rightarrow> string \<Rightarrow> string \<Rightarrow> int \<Rightarrow> bool \<Rightarrow> int \<Rightarrow> db_error + (Livre \<times> db)" where
  "insert_livre s t a y d now =
     (let row = \<lparr>l_id = next_id (map l_id (livres s)), titre = t, auteur = a,
                 annee_publication = y, disponible = d, l_date_creation = now\<rparr>
      in Inr (row, s\<lparr>livres := livres s @ [row]\<rparr>))"

text \<open>\<^verbatim>\<open>email = Column(String(255), nullable=False, unique=True, index=True)\<close>\<close>

definition insert_emprunteur :: "db \<Rightarrow> string \<Rightarrow> string \<Rightarrow> int \<Rightarrow> db_error + (Emprunteur \<times> db)" where
  "insert_emprunteur s n m now =
     (if m \<in> set (map email (emprunteurs s)) then Inl IntegrityError
      else
        let row = \<lparr>b_id = next_id (map b_id (emprunteurs s)), nom = n, email = m,
                   b_date_creation = now\<rparr>
        in Inr (row, s\<lparr>emprunteurs := emprunteurs s @ [row]\<rparr>))"

text \<open>\<^verbatim>\<open>ForeignKey("livres.id")\<close>, \<^verbatim>\<open>ForeignKey("emprunteurs.id")\<close>\<close>

definition insert_emprunt :: "db \<Rightarrow> int \<Rightarrow> int \<Rightarrow> int \<Rightarrow> db_error + (Emprunt \<times> db)" where
  "insert_emprunt s lid bid now =
     (if foreign_keys s \<and>
         (lid \<notin> set (map l_id (livres s)) \<or> bid \<notin> set (map b_id (emprunteurs s)))
      then Inl IntegrityError
      else
        let row = \<lparr>e_id = next_id (map e_id (emprunts s)), livre_id = lid,
                   emprunteur_id = bid, date_emprunt = now\<rparr>
        in Inr (row, s\<lparr>emprunts := emprunts s @ [row]\<rparr>))"

text \<open>\<^verbatim>\<open>UPDATE livres SET disponible = ? WHERE livres.id = ?\<close>\<close>

definition set_disponible :: "db \<Rightarrow> int \<Rightarrow> bool \<Rightarrow> db" where
  "set_disponible s i d =
     s\<lparr>livres := map (\<lambda>l. if l_id l = i then l\<lparr>disponible := d\<rparr> else l) (livres s)\<rparr>"

text \<open>
  The attributes of a loaded \<^verbatim>\<open>Livre\<close> object after the \<^verbatim>\<open>setattr\<close> loop of
  \<^verbatim>\<open>update_livre\<close>: any of them may have been set to \<^verbatim>\<open>None\<close>. The commit writes them
  with one \<^verbatim>\<open>UPDATE\<close>, which the \<^verbatim>\<open>NOT NULL\<close> constraints reject when one is \<^verbatim>\<open>None\<close>.
\<close>

record LivreAttrs =
  a_titre :: "string option"
  a_auteur :: "string option"
  a_annee_publication :: "int option"
  a_disponible :: "bool option"

definition setattr_field :: "'a optional \<Rightarrow> 'a option \<Rightarrow> 'a option" where
  "setattr_field f cur = (case f of Unset \<Rightarrow> cur | Explicit_None \<Rightarrow> None | Given v \<Rightarrow> Some v)"

definition setattr_all :: "LivreUpdateDTO \<Rightarrow> Livre \<Rightarrow> LivreAttrs" where
  "setattr_all livre_data db_livre =
     \<lparr>a_titre = setattr_field (upd_titre livre_data) (Some (titre db_livre)),
      a_auteur = setattr_field (upd_auteur livre_data) (Some (auteur db_livre)),
      a_annee_publication =
        setattr_field (upd_annee_publication livre_data) (Some (annee_publication db_livre)),
      a_disponible = setattr_field (upd_disponible livre_data) (Some (disponible db_livre))\<rparr>"

definition write_attrs :: "Livre \<Rightarrow> string \<Rightarrow> string \<Rightarrow> int \<Rightarrow> bool \<Rightarrow> Livre" where
  "write_attrs l t a y d = l\<lparr>titre := t, auteur := a, annee_publication := y, disponible := d\<rparr>"

definition update_livre_row :: "db \<Rightarrow> int \<Rightarrow> LivreAttrs \<Rightarrow> db_error + db" where
  "update_livre_row s i attrs =
     (case (a_titre attrs, a_auteur attrs, a_annee_publication attrs, a_disponible attrs) of
        (Some t, Some a, Some y, Some d) \<Rightarrow>
          Inr (s\<lparr>livres := map (\<lambda>l. if l_id l = i then write_attrs l t a y d else l) (livres s)\<rparr>)
      | _ \<Rightarrow> Inl IntegrityError)"

text \<open>
  \<^verbatim>\<open>emprunts = relationship("Emprunt", ..., cascade="all, delete-orphan")\<close> on both
  \<^verbatim>\<open>Livre\<close> and \<^verbatim>\<open>Emprunteur\<close>: \<^verbatim>\<open>db.delete(parent)\<close> marks the parent's loans for
  deletion too, and the flush deletes the loans first and the parent row after them.
  The foreign-key check of the parent's \<^verbatim>\<open>DELETE\<close> sees the table without those loans.
\<close>

definition delete_livre_cascade :: "db \<Rightarrow> int \<Rightarrow> db_error + db" where
  "delete_livre_cascade s i =
     (let s1 = s\<lparr>emprunts := filter (\<lambda>e. livre_id e \<noteq> i) (emprunts s)\<rparr>
      in if foreign_keys s1 \<and> i \<in> set (map livre_id (emprunts s1)) then Inl IntegrityError
         else Inr (s1\<lparr>livres := filter (\<lambda>l. l_id l \<noteq> i) (livres s1)\<rparr>))"

definition delete_emprunteur_cascade :: "db \<Rightarrow> int \<Rightarrow> db_error + db" where
  "delete_emprunteur_cascade s i =
     (let s1 = s\<lparr>emprunts := filter (\<lambda>e. emprunteur_id e \<noteq> i) (emprunts s)\<rparr>
      in if foreign_keys s1 \<and> i \<in> set (map emprunteur_id (emprunts s1)) then Inl IntegrityError
         else Inr (s1\<lparr>emprunteurs := filter (\<lambda>b. b_id b \<noteq> i) (emprunteurs s1)\<rparr>))"

text \<open>
  \<^verbatim>\<open>query.offset(skip).limit(limit).all()\<close>, for a \<^verbatim>\<open>skip\<close> and a \<^verbatim>\<open>limit\<close> that SQLite can
  bind. SQLite reads a negative \<^verbatim>\<open>OFFSET\<close> as zero and a negative \<^verbatim>\<open>LIMIT\<close> as no bound.
\<close>

definition offset_limit :: "int \<Rightarrow> int \<Rightarrow> 'a list \<Rightarrow> 'a list" where
  "offset_limit skip limit rows =
     (let rest = drop (nat skip) rows in if limit < 0 then rest else take (nat limit) rest)"

section \<open>Errors raised by the services\<close>

text \<open>
  Every failure the services signal is a FastAPI \<^verbatim>\<open>HTTPException(status_code, detail)\<close>.
  The detail strings are kept as tags with the values they interpolate. A store error
  that no handler catches leaves the service as it is, and so does the \<^verbatim>\<open>OverflowError\<close>
  of a query whose parameter does not fit.
\<close>

datatype detail =
    Livre_non_trouve int
  | Emprunteur_non_trouve int
  | Livre_pas_disponible string
  | Livre_deja_disponible string
  | Email_existe_deja string
  | Emprunts_actifs int nat
  | Erreur_creation_livre
  | Erreur_mise_a_jour_livre
  | Suppression_livre_impossible
  | Erreur_creation_emprunteur
  | Erreur_creation_emprunt
  | Erreur_interne

datatype exn = HTTPException nat detail | Uncaught db_error | OverflowError

abbreviation HTTP_400_BAD_REQUEST :: nat where "HTTP_400_BAD_REQUEST \<equiv> 400"
abbreviation HTTP_404_NOT_FOUND :: nat where "HTTP_404_NOT_FOUND \<equiv> 404"
abbreviation HTTP_500_INTERNAL_SERVER_ERROR :: nat where "HTTP_500_INTERNAL_SERVER_ERROR \<equiv> 500"

text \<open>
  \<^verbatim>\<open>db.query(M).filter(M.id == i).first()\<close>: the first row of the table with the key \<open>i\<close>,
  \<^verbatim>\<open>None\<close> when there is none, \<^verbatim>\<open>OverflowError\<close> when \<open>i\<close> cannot be bound.
\<close>

definition first_by_id :: "('a \<Rightarrow> int) \<Rightarrow> 'a list \<Rightarrow> int \<Rightarrow> exn + 'a option" where
  "first_by_id key rows i =
     (if sqlite_int i then Inr (find (\<lambda>r. key r = i) rows) else Inl OverflowError)"

text \<open>\<^verbatim>\<open>db.refresh(db_livre)\<close> reads the row of a loaded book again, by its stored key.\<close>

definition refresh_livre :: "db \<Rightarrow> Livre \<Rightarrow> Livre option" where
  "refresh_livre s db_livre = find (\<lambda>l. l_id l = l_id db_livre) (livres s)"

section \<open>LivreService (app/services/livre_service.py)\<close>

text \<open>
  Each service takes the store and returns what it returned or raised together with the
  store it leaves behind. A raise before the commit, and a rollback after a failed one,
  leave the store as it was. Where the lookup of a service stands before its \<^verbatim>\<open>try\<close>, the
  \<^verbatim>\<open>OverflowError\<close> of the lookup leaves the service uncaught; where it stands inside, the
  \<^verbatim>\<open>except Exception\<close> handler turns it into HTTP 500.
\<close>

definition get_livres :: "db \<Rightarrow> int \<Rightarrow> int \<Rightarrow> Livre list" where
  "get_livres s skip limit = offset_limit skip limit (livres s)"

definition get_livre_by_id :: "db \<Rightarrow> int \<Rightarrow> exn + Livre option" where
  "get_livre_by_id s livre_id' = first_by_id l_id (livres s) livre_id'"

definition create_livre :: "db \<Rightarrow> LivreCreateDTO \<Rightarrow> int \<Rightarrow> (exn + Livre) \<times> db" where
  "create_livre s livre_data now =
     (case insert_livre s (new_titre livre_data) (new_auteur livre_data)
             (new_annee_publication livre_data) True now of
        Inr (db_livre, s') \<Rightarrow> (Inr db_livre, s')
      | Inl IntegrityError \<Rightarrow> (Inl (HTTPException HTTP_400_BAD_REQUEST Erreur_creation_livre), s)
      | Inl _ \<Rightarrow> (Inl (HTTPException HTTP_500_INTERNAL_SERVER_ERROR Erreur_interne), s))"

definition update_livre :: "db \<Rightarrow> int \<Rightarrow> LivreUpdateDTO \<Rightarrow> (exn + Livre) \<times> db" where
  "update_livre s livre_id' livre_data =
     (case get_livre_by_id s livre_id' of
        Inl x \<Rightarrow> (Inl x, s)
      | Inr None \<Rightarrow> (Inl (HTTPException HTTP_404_NOT_FOUND (Livre_non_trouve livre_id')), s)
      | Inr (Some db_livre) \<Rightarrow>
          (case update_livre_row s (l_id db_livre) (setattr_all livre_data db_livre) of
             Inr s' \<Rightarrow>
               (case refresh_livre s' db_livre of
                  Some refreshed \<Rightarrow> (Inr refreshed, s')
                | None \<Rightarrow> (Inl (HTTPException HTTP_500_INTERNAL_SERVER_ERROR Erreur_interne), s))
           | Inl IntegrityError \<Rightarrow>
               (Inl (HTTPException HTTP_400_BAD_REQUEST Erreur_mise_a_jour_livre), s)
           | Inl _ \<Rightarrow> (Inl (HTTPException HTTP_500_INTERNAL_SERVER_ERROR Erreur_interne), s)))"

definition delete_livre :: "db \<Rightarrow> int \<Rightarrow> (exn + bool) \<times> db" where
  "delete_livre s livre_id' =
     (case get_livre_by_id s livre_id' of
        Inl x \<Rightarrow> (Inl x, s)
      | Inr None \<Rightarrow> (Inl (HTTPException HTTP_404_NOT_FOUND (Livre_non_trouve livre_id')), s)
      | Inr (Some db_livre) \<Rightarrow>
          (case delete_livre_cascade s (l_id db_livre) of
             Inr s' \<Rightarrow> (Inr True, s')
           | Inl IntegrityError \<Rightarrow>
               (Inl (HTTPException HTTP_400_BAD_REQUEST Suppression_livre_impossible), s)
           | Inl _ \<Rightarrow> (Inl (HTTPException HTTP_500_INTERNAL_SERVER_ERROR Erreur_interne), s)))"

definition set_livre_disponibilite :: "db \<Rightarrow> int \<Rightarrow> bool \<Rightarrow> (exn + Livre option) \<times> db" where
  "set_livre_disponibilite s livre_id' d =
     (case get_livre_by_id s livre_id' of
        Inl x \<Rightarrow> (Inl x, s)
      | Inr None \<Rightarrow> (Inr None, s)
      | Inr (Some db_livre) \<Rightarrow>
          (let s' = set_disponible s (l_id db_livre) d
           in (Inr (refresh_livre s' db_livre), s')))"

section \<open>EmprunteurService (app/services/emprunteur_service.py)\<close>

definition get_emprunteurs :: "db \<Rightarrow> int \<Rightarrow> int \<Rightarrow> Emprunteur list" where
  "get_emprunteurs s skip limit = offset_limit skip limit (emprunteurs s)"

definition get_emprunteur_by_id :: "db \<Rightarrow> int \<Rightarrow> exn + Emprunteur option" where
  "get_emprunteur_by_id s emprunteur_id' = first_by_id b_id (emprunteurs s) emprunteur_id'"

definition get_emprunteur_by_email :: "db \<Rightarrow> string \<Rightarrow> Emprunteur option" where
  "get_emprunteur_by_email s email' = find (\<lambda>b. email b = email') (emprunteurs s)"

definition create_emprunteur :: "db \<Rightarrow> EmprunteurCreateDTO \<Rightarrow> int \<Rightarrow> (exn + Emprunteur) \<times> db" where
  "create_emprunteur s emprunteur_data now =
     (case get_emprunteur_by_email s (new_email emprunteur_data) of
        Some existing_emprunteur \<Rightarrow>
          (Inl (HTTPException HTTP_400_BAD_REQUEST (Email_existe_deja (new_email emprunteur_data))), s)
      | None \<Rightarrow>
          (case insert_emprunteur s (new_nom emprunteur_data) (new_email emprunteur_data) now of
             Inr (db_emprunteur, s') \<Rightarrow> (Inr db_emprunteur, s')
           | Inl IntegrityError \<Rightarrow>
               (Inl (HTTPException HTTP_400_BAD_REQUEST Erreur_creation_emprunteur), s)
           | Inl _ \<Rightarrow> (Inl (HTTPException HTTP_500_INTERNAL_SERVER_ERROR Erreur_interne), s)))"

text \<open>
  \<^verbatim>\<open>delete_emprunteur\<close> has no \<^verbatim>\<open>try\<close>: an error of the store would leave it uncaught.
  On success it returns the id in its confirmation message.
\<close>

definition delete_emprunteur :: "db \<Rightarrow> int \<Rightarrow> (exn + int) \<times> db" where
  "delete_emprunteur s emprunteur_id' =
     (case first_by_id b_id (emprunteurs s) emprunteur_id' of
        Inl x \<Rightarrow> (Inl x, s)
      | Inr None \<Rightarrow>
          (Inl (HTTPException HTTP_404_NOT_FOUND (Emprunteur_non_trouve emprunteur_id')), s)
      | Inr (Some emprunteur) \<Rightarrow>
          (let emprunts_actifs = length (filter (\<lambda>e. emprunteur_id e = emprunteur_id') (emprunts s))
           in if emprunts_actifs > 0
              then (Inl (HTTPException HTTP_400_BAD_REQUEST
                           (Emprunts_actifs emprunteur_id' emprunts_actifs)), s)
              else (case delete_emprunteur_cascade s (b_id emprunteur) of
                      Inr s' \<Rightarrow> (Inr emprunteur_id', s')
                    | Inl e \<Rightarrow> (Inl (Uncaught e), s))))"

section \<open>EmpruntService (app/services/emprunt_service.py)\<close>

definition get_emprunts :: "db \<Rightarrow> int \<Rightarrow> int \<Rightarrow> Emprunt list" where
  "get_emprunts s skip limit = offset_limit skip limit (emprunts s)"

definition create_emprunt :: "db \<Rightarrow> EmpruntCreateDTO \<Rightarrow> int \<Rightarrow> (exn + Emprunt) \<times> db" where
  "create_emprunt s emprunt_data now =
     (case get_livre_by_id s (dto_livre_id emprunt_data) of
        Inl x \<Rightarrow> (Inl (HTTPException HTTP_500_INTERNAL_SERVER_ERROR Erreur_interne), s)
      | Inr None \<Rightarrow>
          (Inl (HTTPException HTTP_404_NOT_FOUND (Livre_non_trouve (dto_livre_id emprunt_data))), s)
      | Inr (Some livre) \<Rightarrow>
          (case get_emprunteur_by_id s (dto_emprunteur_id emprunt_data) of
             Inl x \<Rightarrow> (Inl (HTTPException HTTP_500_INTERNAL_SERVER_ERROR Erreur_interne), s)
           | Inr None \<Rightarrow>
               (Inl (HTTPException HTTP_404_NOT_FOUND
                       (Emprunteur_non_trouve (dto_emprunteur_id emprunt_data))), s)
           | Inr (Some emprunteur) \<Rightarrow>
               if \<not> disponible livre
               then (Inl (HTTPException HTTP_400_BAD_REQUEST (Livre_pas_disponible (titre livre))), s)
               else
                 (case insert_emprunt s (dto_livre_id emprunt_data)
                         (dto_emprunteur_id emprunt_data) now of
                    Inr (db_emprunt, s') \<Rightarrow> (Inr db_emprunt, set_disponible s' (l_id livre) False)
                  | Inl IntegrityError \<Rightarrow>
                      (Inl (HTTPException HTTP_400_BAD_REQUEST Erreur_creation_emprunt), s)
                  | Inl _ \<Rightarrow>
                      (Inl (HTTPException HTTP_500_INTERNAL_SERVER_ERROR Erreur_interne), s))))"

text \<open>
  The commit of \<^verbatim>\<open>retourner_livre\<close> writes one boolean into one stored row; no constraint
  of the store can reject it, so the \<^verbatim>\<open>except Exception\<close> branch (HTTP 500) has no case.
\<close>

definition retourner_livre :: "db \<Rightarrow> int \<Rightarrow> (exn + Livre) \<times> db" where
  "retourner_livre s livre_id' =
     (case get_livre_by_id s livre_id' of
        Inl x \<Rightarrow> (Inl x, s)
      | Inr None \<Rightarrow> (Inl (HTTPException HTTP_404_NOT_FOUND (Livre_non_trouve livre_id')), s)
      | Inr (Some livre) \<Rightarrow>
          if disponible livre
          then (Inl (HTTPException HTTP_400_BAD_REQUEST (Livre_deja_disponible (titre livre))), s)
          else (let s' = set_disponible s (l_id livre) True
                in (Inr (livre\<lparr>disponible := True\<rparr>), s')))"

text \<open>
  \<^verbatim>\<open>get_emprunts_with_details\<close> reads the same page of loans and pairs each loan with
  the book and the borrower its relationships \<^verbatim>\<open>emprunt.livre\<close> and \<^verbatim>\<open>emprunt.emprunteur\<close>
  load by the stored foreign keys.
\<close>

definition get_emprunts_with_details ::
  "db \<Rightarrow> int \<Rightarrow> int \<Rightarrow> (Emprunt \<times> Livre option \<times> Emprunteur option) list" where
  "get_emprunts_with_details s skip limit =
     map (\<lambda>e. (e, find (\<lambda>l. l_id l = livre_id e) (livres s),
                  find (\<lambda>b. b_id b = emprunteur_id e) (emprunteurs s)))
       (offset_limit skip limit (emprunts s))"

section \<open>Routers (app/routers)\<close>

text \<open>
  The listing endpoints declare \<^verbatim>\<open>skip: int = 0, limit: int = 100\<close> and hand both to the
  service as they come.
\<close>

definition route_get_livres :: "db \<Rightarrow> int \<Rightarrow> int \<Rightarrow> Livre list" where
  "route_get_livres s skip limit = get_livres s skip limit"

definition route_get_emprunteurs :: "db \<Rightarrow> int \<Rightarrow> int \<Rightarrow> Emprunteur list" where
  "route_get_emprunteurs s skip limit = get_emprunteurs s skip limit"

definition route_get_emprunts ::
  "db \<Rightarrow> int \<Rightarrow> int \<Rightarrow> (Emprunt \<times> Livre option \<times> Emprunteur option) list" where
  "route_get_emprunts s skip limit = get_emprunts_with_details s skip limit"

section \<open>Sequences of requests\<close>

text \<open>
  The state-changing operations of the system: one request per routed endpoint that
  writes, and \<^verbatim>\<open>set_livre_disponibilite\<close>, which the service class offers beside them.
  Requests that create a row carry the clock reading the store stamps it with.
\<close>

datatype request =
    Create_livre LivreCreateDTO int
  | Update_livre int LivreUpdateDTO
  | Delete_livre int
  | Set_livre_disponibilite int bool
  | Create_emprunteur EmprunteurCreateDTO int
  | Delete_emprunteur int
  | Create_emprunt EmpruntCreateDTO int
  | Retourner_livre int

text \<open>
  The store keeps no trace of returns, so a history is kept beside it: the ids of the
  loans that no return has reversed. A successful borrow records its new loan there; a
  successful return of a book reverses every loan of that book. Nothing else touches it.
\<close>

type_synonym history = "int list"

fun serve :: "request \<Rightarrow> db \<times> history \<Rightarrow> db \<times> history" where
  "serve (Create_livre d now) (s, h) = (snd (create_livre s d now), h)"
| "serve (Update_livre i d) (s, h) = (snd (update_livre s i d), h)"
| "serve (Delete_livre i) (s, h) = (snd (delete_livre s i), h)"
| "serve (Set_livre_disponibilite i b) (s, h) = (snd (set_livre_disponibilite s i b), h)"
| "serve (Create_emprunteur d now) (s, h) = (snd (create_emprunteur s d now), h)"
| "serve (Delete_emprunteur i) (s, h) = (snd (delete_emprunteur s i), h)"
| "serve (Create_emprunt d now) (s, h) =
     (case create_emprunt s d now of
        (Inr e, s') \<Rightarrow> (s', e_id e # h)
      | (Inl x, s') \<Rightarrow> (s', h))"
| "serve (Retourner_livre i) (s, h) =
     (case retourner_livre s i of
        (Inr l, s') \<Rightarrow>
          (s', filter (\<lambda>k. k \<notin> set (map e_id (filter (\<lambda>e. livre_id e = i) (emprunts s)))) h)
      | (Inl x, s') \<Rightarrow> (s', h))"

definition serve_all :: "request list \<Rightarrow> db \<times> history \<Rightarrow> db \<times> history" where
  "serve_all rs st = fold serve rs st"

text \<open>The store after \<^verbatim>\<open>create_tables()\<close>: three empty tables.\<close>

definition empty_store :: "bool \<Rightarrow> db \<times> history" where
  "empty_store fk = (\<lparr>livres = [], emprunteurs = [], emprunts = [], foreign_keys = fk\<rparr>, [])"

definition has_unreversed_loan :: "db \<times> history \<Rightarrow> int \<Rightarrow> bool" where
  "has_unreversed_loan st i =
     (\<exists>e\<in>set (emprunts (fst st)). livre_id e = i \<and> e_id e \<in> set (snd st))"

definition flag_matches_loans :: "db \<times> history \<Rightarrow> bool" where
  "flag_matches_loans st =
     (\<forall>l\<in>set (livres (fst st)). (\<not> disponible l) = has_unreversed_loan st (l_id l))"

text \<open>The requests that write the availability flag from the request's own data.\<close>

fun sets_flag :: "request \<Rightarrow> bool" where
  "sets_flag (Update_livre i d) = (upd_disponible d \<noteq> Unset)"
| "sets_flag (Set_livre_disponibilite i b) = True"
| "sets_flag r = False"

text \<open>Every loan refers to a stored book.\<close>

definition loans_refer_to_books :: "db \<Rightarrow> bool" where
  "loans_refer_to_books s = (\<forall>e\<in>set (emprunts s). livre_id e \<in> set (map l_id (livres s)))"

text \<open>
  What the operations other than a direct write of the flag keep true together: the flag
  follows the history, loans refer to stored books, and loan keys are not repeated.
\<close>

definition consistent :: "db \<times> history \<Rightarrow> bool" where
  "consistent st =
     (flag_matches_loans st \<and> loans_refer_to_books (fst st)
      \<and> distinct (map e_id (emprunts (fst st))))"

section \<open>Sample data (init\_db.py)\<close>

definition les_miserables :: Livre where
  "les_miserables = \<lparr>l_id = 1, titre = ''Les Miserables'', auteur = ''Victor Hugo'',
                      annee_publication = 1862, disponible = True, l_date_creation = 0\<rparr>"

definition jean_dupont :: Emprunteur where
  "jean_dupont = \<lparr>b_id = 1, nom = ''Jean Dupont'', email = ''jean.dupont@email.com'',
                   b_date_creation = 0\<rparr>"

definition seeded :: "bool \<Rightarrow> db" where
  "seeded fk = \<lparr>livres = [les_miserables], emprunteurs = [jean_dupont], emprunts = [],
                foreign_keys = fk\<rparr>"

definition premier_emprunt :: Emprunt where
  "premier_emprunt = \<lparr>e_id = 1, livre_id = 1, emprunteur_id = 1, date_emprunt = 5\<rparr>"

text \<open>The seeded store after Jean Dupont has borrowed Les Miserables.\<close>

definition on_loan :: "bool \<Rightarrow> db" where
  "on_loan fk = \<lparr>livres = [les_miserables\<lparr>disponible := False\<rparr>], emprunteurs = [jean_dupont],
                 emprunts = [premier_emprunt], foreign_keys = fk\<rparr>"

text \<open>The same store after the book has come back: the flag is up, the loan remains.\<close>

definition returned :: "bool \<Rightarrow> db" where
  "returned fk = \<lparr>livres = [les_miserables], emprunteurs = [jean_dupont],
                  emprunts = [premier_emprunt], foreign_keys = fk\<rparr>"

definition marie_martin :: EmprunteurCreateDTO where
  "marie_martin = \<lparr>new_nom = ''Marie Martin'', new_email = ''marie.martin@email.com''\<rparr>"

definition homonyme :: EmprunteurCreateDTO where
  "homonyme = \<lparr>new_nom = ''J. Dupont'', new_email = ''jean.dupont@email.com''\<rparr>"

definition retirer :: LivreUpdateDTO where
  "retirer = \<lparr>upd_titre = Unset, upd_auteur = Unset, upd_annee_publication = Unset,
               upd_disponible = Given False\<rparr>"

definition remettre :: LivreUpdateDTO where
  "remettre = \<lparr>upd_titre = Given ''Les Miserables (tome 1)'', upd_auteur = Unset,
                upd_annee_publication = Unset, upd_disponible = Given True\<rparr>"

definition retirer_sans_titre :: LivreUpdateDTO where
  "retirer_sans_titre = \<lparr>upd_titre = Explicit_None, upd_auteur = Unset,
                          upd_annee_publication = Unset, upd_disponible = Given False\<rparr>"

definition les_miserables_dto :: LivreCreateDTO where
  "les_miserables_dto = \<lparr>new_titre = ''Les Miserables'', new_auteur = ''Victor Hugo'',
                          new_annee_publication = 1862\<rparr>"

definition jean_dupont_dto :: EmprunteurCreateDTO where
  "jean_dupont_dto = \<lparr>new_nom = ''Jean Dupont'', new_email = ''jean.dupont@email.com''\<rparr>"

definition demande :: EmpruntCreateDTO where
  "demande = \<lparr>dto_livre_id = 1, dto_emprunteur_id = 1\<rparr>"

definition retitrer :: LivreUpdateDTO where
  "retitrer = \<lparr>upd_titre = Given ''Les Miserables'', upd_auteur = Unset,
                upd_annee_publication = Unset, upd_disponible = Unset\<rparr>"

text \<open>
  A day at the desk: the book and the borrower are registered, the book goes out, comes
  back, has its title corrected and goes out again.
\<close>

definition journee :: "request list" where
  "journee = [Create_livre les_miserables_dto 0, Create_emprunteur jean_dupont_dto 0,
              Create_emprunt demande 5, Retourner_livre 1, Update_livre 1 retitrer,
              Create_emprunt demande 5]"

text \<open>A catalogue of \<open>n\<close> books with the ids \<open>1, \<dots>, n\<close>.\<close>

definition catalogue :: "nat \<Rightarrow> db" where
  "catalogue n =
     \<lparr>livres = map (\<lambda>k. les_miserables\<lparr>l_id := int k + 1\<rparr>) [0..<n],
      emprunteurs = [], emprunts = [], foreign_keys = False\<rparr>"

section \<open>Lookups and fresh keys\<close>

lemma find_Some_holds: "find P xs = Some x \<Longrightarrow> P x \<and> x \<in> set xs"
  by (induction xs) (auto split: if_splits)

lemma find_map_update:
  "find (\<lambda>l. k l = i) xs = Some x \<Longrightarrow> (\<And>y. k (f y) = k y) \<Longrightarrow>
   find (\<lambda>l. k l = i) (map (\<lambda>l. if k l = i then f l else l) xs) = Some (f x)"
  by (induction xs) (auto split: if_splits)

lemma find_None_conv: "(find P xs = None) = (\<forall>x\<in>set xs. \<not> P x)"
  by (induction xs) auto

lemma lookup_cases [case_names Overflow Missing Found]:
  fixes r :: "exn + 'a option"
  assumes "\<And>x. r = Inl x \<Longrightarrow> P" and "r = Inr None \<Longrightarrow> P" and "\<And>l. r = Inr (Some l) \<Longrightarrow> P"
  shows P
proof (cases r)
  case (Inl x)
  then show ?thesis by (rule assms(1))
next
  case (Inr o1)
  then show ?thesis by (cases o1) (auto intro: assms(2,3))
qed

lemma first_by_id_Inr:
  "(first_by_id key rows i = Inr r) = (sqlite_int i \<and> find (\<lambda>x. key x = i) rows = r)"
  by (simp add: first_by_id_def)

lemma first_by_id_Inl:
  "(first_by_id key rows i = Inl x) = (\<not> sqlite_int i \<and> x = OverflowError)"
  by (auto simp: first_by_id_def)

lemma get_livre_by_id_find:
  "(get_livre_by_id s i = Inr r) = (sqlite_int i \<and> find (\<lambda>l. l_id l = i) (livres s) = r)"
  by (simp add: get_livre_by_id_def first_by_id_Inr)

lemma get_emprunteur_by_id_find:
  "(get_emprunteur_by_id s i = Inr r) = (sqlite_int i \<and> find (\<lambda>b. b_id b = i) (emprunteurs s) = r)"
  by (simp add: get_emprunteur_by_id_def first_by_id_Inr)

lemma get_livre_by_id_id: "get_livre_by_id s i = Inr (Some l) \<Longrightarrow> l_id l = i"
  by (auto simp: get_livre_by_id_find dest: find_Some_holds)

lemma get_livre_by_id_mem: "get_livre_by_id s i = Inr (Some l) \<Longrightarrow> l \<in> set (livres s)"
  by (auto simp: get_livre_by_id_find dest: find_Some_holds)

lemma get_emprunteur_by_id_mem:
  "get_emprunteur_by_id s i = Inr (Some b) \<Longrightarrow> i \<in> b_id ` set (emprunteurs s)"
  by (auto simp: get_emprunteur_by_id_find dest: find_Some_holds)

lemma get_livre_set_disponible:
  "get_livre_by_id s i = Inr (Some l) \<Longrightarrow>
   get_livre_by_id (set_disponible s i d) i = Inr (Some (l\<lparr>disponible := d\<rparr>))"
  unfolding get_livre_by_id_find set_disponible_def
  by (simp add: find_map_update [where f = "\<lambda>l. l\<lparr>disponible := d\<rparr>"])

lemmas lookup_defs =
  get_livre_by_id_def get_emprunteur_by_id_def first_by_id_def sqlite_int_def refresh_livre_def

lemma fold_max_ge: "(a::int) \<le> fold max xs a \<and> (\<forall>x\<in>set xs. x \<le> fold max xs a)"
proof (induction xs arbitrary: a)
  case Nil
  show ?case by simp
next
  case (Cons y ys)
  have "max y a \<le> fold max ys (max y a)" and "\<forall>x\<in>set ys. x \<le> fold max ys (max y a)"
    using Cons.IH [of "max y a"] by blast+
  then show ?case by auto
qed

lemma next_id_fresh: "x \<in> set ids \<Longrightarrow> x < next_id ids"
proof (cases ids)
  case Nil
  assume "x \<in> set ids"
  with Nil show ?thesis by simp
next
  case (Cons y ys)
  assume "x \<in> set ids"
  with Cons fold_max_ge [of y ys] have "x \<le> fold max ys y" by auto
  with Cons show ?thesis by (simp add: next_id_def)
qed

lemma insert_emprunt_ok:
  assumes "lid \<in> l_id ` set (livres s)" "bid \<in> b_id ` set (emprunteurs s)"
  shows "insert_emprunt s lid bid now =
           Inr (\<lparr>e_id = next_id (map e_id (emprunts s)), livre_id = lid,
                  emprunteur_id = bid, date_emprunt = now\<rparr>,
                s\<lparr>emprunts := emprunts s @
                     [\<lparr>e_id = next_id (map e_id (emprunts s)), livre_id = lid,
                       emprunteur_id = bid, date_emprunt = now\<rparr>]\<rparr>)"
  using assms by (simp add: insert_emprunt_def Let_def)

lemma insert_emprunteur_ok:
  assumes "m \<notin> email ` set (emprunteurs s)"
  shows "insert_emprunteur s n m now =
           Inr (\<lparr>b_id = next_id (map b_id (emprunteurs s)), nom = n, email = m,
                  b_date_creation = now\<rparr>,
                s\<lparr>emprunteurs := emprunteurs s @
                     [\<lparr>b_id = next_id (map b_id (emprunteurs s)), nom = n, email = m,
                       b_date_creation = now\<rparr>]\<rparr>)"
  using assms by (simp add: insert_emprunteur_def Let_def)

section \<open>What each service does to the store\<close>

lemma create_livre_effect:
  "\<exists>row. create_livre s d now = (Inr row, s\<lparr>livres := livres s @ [row]\<rparr>)
         \<and> l_id row = next_id (map l_id (livres s)) \<and> disponible row"
  by (simp add: create_livre_def insert_livre_def Let_def)

lemma update_livre_effect:
  assumes "upd_disponible d = Unset"
  shows "snd (update_livre s i d) = s \<or>
         (\<exists>l0 t a y. get_livre_by_id s i = Inr (Some l0) \<and>
            snd (update_livre s i d) =
              s\<lparr>livres := map (\<lambda>l. if l_id l = i then write_attrs l t a y (disponible l0) else l)
                             (livres s)\<rparr>)"
proof (cases "get_livre_by_id s i" rule: lookup_cases)
  case (Overflow x)
  then show ?thesis by (simp add: update_livre_def)
next
  case Missing
  then show ?thesis by (simp add: update_livre_def)
next
  case (Found l0)
  then have lid: "l_id l0 = i" by (rule get_livre_by_id_id)
  have flag: "a_disponible (setattr_all d l0) = Some (disponible l0)"
    using assms by (simp add: setattr_all_def setattr_field_def)
  show ?thesis
  proof (cases "update_livre_row s i (setattr_all d l0)")
    case (Inl x)
    then show ?thesis
      using Found lid by (cases x) (simp_all add: update_livre_def)
  next
    case (Inr s')
    then obtain t a y where
      s': "s' = s\<lparr>livres := map (\<lambda>l. if l_id l = i then write_attrs l t a y (disponible l0) else l)
                               (livres s)\<rparr>"
      using flag by (auto simp: update_livre_row_def split: option.splits)
    have "snd (update_livre s i d) = s \<or> snd (update_livre s i d) = s'"
      using Found lid Inr by (simp add: update_livre_def split: option.splits)
    with s' Found show ?thesis by blast
  qed
qed

lemma delete_livre_effect:
  "snd (delete_livre s i) = s \<or>
   snd (delete_livre s i) =
     s\<lparr>emprunts := filter (\<lambda>e. livre_id e \<noteq> i) (emprunts s),
       livres := filter (\<lambda>l. l_id l \<noteq> i) (livres s)\<rparr>"
proof (cases "get_livre_by_id s i" rule: lookup_cases)
  case (Overflow x)
  then show ?thesis by (simp add: delete_livre_def)
next
  case Missing
  then show ?thesis by (simp add: delete_livre_def)
next
  case (Found l0)
  then have "l_id l0 = i" by (rule get_livre_by_id_id)
  with Found show ?thesis
    by (simp add: delete_livre_def delete_livre_cascade_def Let_def)
qed

lemma create_emprunteur_effect:
  "livres (snd (create_emprunteur s d now)) = livres s
   \<and> emprunts (snd (create_emprunteur s d now)) = emprunts s"
  by (simp add: create_emprunteur_def insert_emprunteur_def Let_def split: option.splits)

lemma delete_emprunteur_run:
  assumes "first_by_id b_id (emprunteurs s) i = Inr (Some b)"
  shows "delete_emprunteur s i =
           (if 0 < length (filter (\<lambda>e. emprunteur_id e = i) (emprunts s))
            then (Inl (HTTPException HTTP_400_BAD_REQUEST
                         (Emprunts_actifs i (length (filter (\<lambda>e. emprunteur_id e = i) (emprunts s))))),
                  s)
            else (Inr i, s\<lparr>emprunteurs := filter (\<lambda>b. b_id b \<noteq> i) (emprunteurs s)\<rparr>))"
proof (cases "filter (\<lambda>e. emprunteur_id e = i) (emprunts s) = []")
  case True
  then have none: "\<forall>e\<in>set (emprunts s). emprunteur_id e \<noteq> i"
    by (simp add: filter_empty_conv)
  then have keep: "filter (\<lambda>e. emprunteur_id e \<noteq> i) (emprunts s) = emprunts s"
    by (simp add: filter_id_conv)
  have "b_id b = i"
    using assms by (auto simp: first_by_id_Inr dest: find_Some_holds)
  then show ?thesis
    using assms True keep none
    by (auto simp: delete_emprunteur_def delete_emprunteur_cascade_def Let_def)
next
  case False
  with assms show ?thesis by (simp add: delete_emprunteur_def Let_def)
qed

lemma delete_emprunteur_effect:
  "livres (snd (delete_emprunteur s i)) = livres s
   \<and> emprunts (snd (delete_emprunteur s i)) = emprunts s"
proof (cases "first_by_id b_id (emprunteurs s) i" rule: lookup_cases)
  case (Overflow x)
  then show ?thesis by (simp add: delete_emprunteur_def)
next
  case Missing
  then show ?thesis by (simp add: delete_emprunteur_def)
next
  case (Found b)
  show ?thesis
    unfolding delete_emprunteur_run [OF Found] by simp
qed

lemma create_emprunt_effect:
  "(\<exists>x. create_emprunt s d now = (Inl x, s)) \<or>
   (\<exists>e. create_emprunt s d now =
          (Inr e, set_disponible (s\<lparr>emprunts := emprunts s @ [e]\<rparr>) (dto_livre_id d) False)
        \<and> livre_id e = dto_livre_id d
        \<and> e_id e = next_id (map e_id (emprunts s))
        \<and> dto_livre_id d \<in> l_id ` set (livres s))"
proof (cases "get_livre_by_id s (dto_livre_id d)" rule: lookup_cases)
  case (Overflow x)
  then show ?thesis by (simp add: create_emprunt_def)
next
  case Missing
  then show ?thesis by (simp add: create_emprunt_def)
next
  case (Found livre)
  note found = this
  have lid: "l_id livre = dto_livre_id d" using found by (rule get_livre_by_id_id)
  have mem: "dto_livre_id d \<in> l_id ` set (livres s)"
    using get_livre_by_id_mem [OF found] lid by force
  show ?thesis
  proof (cases "get_emprunteur_by_id s (dto_emprunteur_id d)" rule: lookup_cases)
    case (Overflow x)
    with found show ?thesis by (simp add: create_emprunt_def)
  next
    case Missing
    with found show ?thesis by (simp add: create_emprunt_def)
  next
    case (Found b)
    show ?thesis
    proof (cases "disponible livre")
      case False
      with found Found show ?thesis by (simp add: create_emprunt_def)
    next
      case True
      from insert_emprunt_ok [OF mem get_emprunteur_by_id_mem [OF Found], of now]
      show ?thesis
        using found Found True lid mem by (simp add: create_emprunt_def)
    qed
  qed
qed

lemma retourner_livre_effect:
  "(\<exists>x. retourner_livre s i = (Inl x, s)) \<or>
   (\<exists>l. retourner_livre s i = (Inr l, set_disponible s i True))"
proof (cases "get_livre_by_id s i" rule: lookup_cases)
  case (Overflow x)
  then show ?thesis by (simp add: retourner_livre_def)
next
  case Missing
  then show ?thesis by (simp add: retourner_livre_def)
next
  case (Found l0)
  then have "l_id l0 = i" by (rule get_livre_by_id_id)
  with Found show ?thesis by (simp add: retourner_livre_def)
qed

lemma update_livre_loans: "emprunts (snd (update_livre s i d)) = emprunts s"
proof (cases "get_livre_by_id s i" rule: lookup_cases)
  case (Overflow x)
  then show ?thesis by (simp add: update_livre_def)
next
  case Missing
  then show ?thesis by (simp add: update_livre_def)
next
  case (Found l0)
  show ?thesis
  proof (cases "update_livre_row s (l_id l0) (setattr_all d l0)")
    case (Inl x)
    with Found show ?thesis by (cases x) (simp_all add: update_livre_def)
  next
    case (Inr s')
    then have "emprunts s' = emprunts s"
      by (auto simp: update_livre_row_def split: option.splits)
    with Found Inr show ?thesis
      by (simp add: update_livre_def split: option.splits)
  qed
qed

lemma set_livre_disponibilite_loans: "emprunts (snd (set_livre_disponibilite s i b)) = emprunts s"
  by (cases "get_livre_by_id s i" rule: lookup_cases)
     (simp_all add: set_livre_disponibilite_def set_disponible_def Let_def)

section \<open>Borrowing\<close>

text \<open>
  Claim C1. Whenever the book of the request is stored with \<open>disponible = True\<close> and the
  borrower of the request is stored, \<open>create_emprunt\<close> returns a loan; the store it leaves
  is the old one with that one loan appended to the loans and the flag of the book set to
  \<open>False\<close>, both in the same resulting store. The loan refers to the book and the borrower
  of the request and carries a key no stored loan had.
\<close>

theorem create_emprunt_available:
  assumes "get_livre_by_id s (dto_livre_id d) = Inr (Some livre)"
    and "disponible livre"
    and "get_emprunteur_by_id s (dto_emprunteur_id d) = Inr (Some b)"
  shows "\<exists>e. create_emprunt s d now =
               (Inr e, s\<lparr>emprunts := emprunts s @ [e],
                          livres := map (\<lambda>l. if l_id l = dto_livre_id d
                                              then l\<lparr>disponible := False\<rparr> else l) (livres s)\<rparr>)
             \<and> livre_id e = dto_livre_id d \<and> emprunteur_id e = dto_emprunteur_id d
             \<and> e_id e \<notin> e_id ` set (emprunts s)
             \<and> get_livre_by_id (snd (create_emprunt s d now)) (dto_livre_id d)
                 = Inr (Some (livre\<lparr>disponible := False\<rparr>))"
proof -
  let ?e = "\<lparr>e_id = next_id (map e_id (emprunts s)), livre_id = dto_livre_id d,
             emprunteur_id = dto_emprunteur_id d, date_emprunt = now\<rparr>"
  have lid: "l_id livre = dto_livre_id d"
    using assms(1) by (rule get_livre_by_id_id)
  have "dto_livre_id d \<in> l_id ` set (livres s)"
    using get_livre_by_id_mem [OF assms(1)] lid by force
  then have ins: "insert_emprunt s (dto_livre_id d) (dto_emprunteur_id d) now
                    = Inr (?e, s\<lparr>emprunts := emprunts s @ [?e]\<rparr>)"
    using get_emprunteur_by_id_mem [OF assms(3)] by (rule insert_emprunt_ok)
  have run: "create_emprunt s d now
               = (Inr ?e, set_disponible (s\<lparr>emprunts := emprunts s @ [?e]\<rparr>) (dto_livre_id d) False)"
    using assms ins lid by (simp add: create_emprunt_def)
  have fresh: "e_id ?e \<notin> e_id ` set (emprunts s)"
    using next_id_fresh [of _ "map e_id (emprunts s)"] by fastforce
  have "get_livre_by_id (s\<lparr>emprunts := emprunts s @ [?e]\<rparr>) (dto_livre_id d) = Inr (Some livre)"
    using assms(1) by (simp add: lookup_defs)
  then have after: "get_livre_by_id (snd (create_emprunt s d now)) (dto_livre_id d)
                      = Inr (Some (livre\<lparr>disponible := False\<rparr>))"
    unfolding run snd_conv by (rule get_livre_set_disponible)
  show ?thesis
    using run fresh after by (intro exI [of _ ?e]) (simp add: set_disponible_def)
qed

lemma seeded_lookups:
  "get_livre_by_id (seeded fk) 1 = Inr (Some les_miserables)"
  "get_emprunteur_by_id (seeded fk) 1 = Inr (Some jean_dupont)"
  "disponible les_miserables"
  by (simp_all add: lookup_defs seeded_def les_miserables_def
      jean_dupont_def)

lemma on_loan_lookups:
  "get_livre_by_id (on_loan fk) 1 = Inr (Some (les_miserables\<lparr>disponible := False\<rparr>))"
  "get_emprunteur_by_id (on_loan fk) 1 = Inr (Some jean_dupont)"
  by (simp_all add: lookup_defs on_loan_def les_miserables_def
      jean_dupont_def)

theorem create_emprunt_available_witness:
  "get_livre_by_id (seeded True) (dto_livre_id demande) = Inr (Some les_miserables)
   \<and> disponible les_miserables
   \<and> get_emprunteur_by_id (seeded True) (dto_emprunteur_id demande) = Inr (Some jean_dupont)
   \<and> create_emprunt (seeded True) demande 5 = (Inr premier_emprunt, on_loan True)"
proof -
  have h1: "get_livre_by_id (seeded True) (dto_livre_id demande) = Inr (Some les_miserables)"
    and h3: "get_emprunteur_by_id (seeded True) (dto_emprunteur_id demande) = Inr (Some jean_dupont)"
    by (simp_all add: demande_def seeded_lookups)
  have h2: "disponible les_miserables"
    by (rule seeded_lookups)
  from create_emprunt_available [OF h1 h2 h3, where now = 5]
  obtain e where run: "create_emprunt (seeded True) demande 5 =
      (Inr e, (seeded True)\<lparr>emprunts := emprunts (seeded True) @ [e],
         livres := map (\<lambda>l. if l_id l = dto_livre_id demande
                             then l\<lparr>disponible := False\<rparr> else l) (livres (seeded True))\<rparr>)"
    by blast
  have "create_emprunt (seeded True) demande 5 = (Inr premier_emprunt, on_loan True)"
    by (simp add: create_emprunt_def insert_emprunt_def set_disponible_def next_id_def Let_def
        lookup_defs seeded_def on_loan_def demande_def
        les_miserables_def jean_dupont_def premier_emprunt_def)
  with h1 h2 h3 run show ?thesis by simp
qed

text \<open>
  Claim C5. Whenever the book and the borrower of the request are stored and the flag of
  the book is \<open>False\<close>, \<open>create_emprunt\<close> raises the HTTP 400 exception that names the
  book, and leaves the store as it was: no loan is added and no flag changes.
\<close>

theorem create_emprunt_unavailable:
  assumes "get_livre_by_id s (dto_livre_id d) = Inr (Some livre)"
    and "get_emprunteur_by_id s (dto_emprunteur_id d) = Inr (Some b)"
    and "\<not> disponible livre"
  shows "create_emprunt s d now =
           (Inl (HTTPException HTTP_400_BAD_REQUEST (Livre_pas_disponible (titre livre))), s)"
  using assms by (simp add: create_emprunt_def)

theorem create_emprunt_unavailable_witness:
  "get_livre_by_id (on_loan True) (dto_livre_id demande) = Inr (Some (les_miserables\<lparr>disponible := False\<rparr>))
   \<and> get_emprunteur_by_id (on_loan True) (dto_emprunteur_id demande) = Inr (Some jean_dupont)
   \<and> \<not> disponible (les_miserables\<lparr>disponible := False\<rparr>)
   \<and> create_emprunt (on_loan True) demande 9 =
       (Inl (HTTPException HTTP_400_BAD_REQUEST
               (Livre_pas_disponible (titre (les_miserables\<lparr>disponible := False\<rparr>)))),
        on_loan True)"
proof -
  have h1: "get_livre_by_id (on_loan True) (dto_livre_id demande)
              = Inr (Some (les_miserables\<lparr>disponible := False\<rparr>))"
    and h2: "get_emprunteur_by_id (on_loan True) (dto_emprunteur_id demande) = Inr (Some jean_dupont)"
    by (simp_all add: demande_def on_loan_lookups)
  have h3: "\<not> disponible (les_miserables\<lparr>disponible := False\<rparr>)"
    by simp
  from create_emprunt_unavailable [OF h1 h2 h3, where now = 9] h1 h2 h3
  show ?thesis by blast
qed

text \<open>
  The second of two borrows of one book with no return between them meets a flag that
  the first one has set to \<open>False\<close>, and fails in that way.
\<close>

lemma create_emprunt_twice:
  assumes "create_emprunt s d now = (Inr e, s')"
    and "dto_livre_id d' = dto_livre_id d"
    and "get_emprunteur_by_id s' (dto_emprunteur_id d') = Inr (Some b')"
  shows "\<exists>t. create_emprunt s' d' now' =
               (Inl (HTTPException HTTP_400_BAD_REQUEST (Livre_pas_disponible t)), s')"
proof -
  from create_emprunt_effect [of s d now]
  have s': "s' = set_disponible (s\<lparr>emprunts := emprunts s @ [e]\<rparr>) (dto_livre_id d) False"
  proof
    assume "\<exists>x. create_emprunt s d now = (Inl x, s)"
    with assms(1) show ?thesis by auto
  next
    assume "\<exists>e. create_emprunt s d now =
          (Inr e, set_disponible (s\<lparr>emprunts := emprunts s @ [e]\<rparr>) (dto_livre_id d) False)
        \<and> livre_id e = dto_livre_id d
        \<and> e_id e = next_id (map e_id (emprunts s))
        \<and> dto_livre_id d \<in> l_id ` set (livres s)"
    then obtain e0 where "create_emprunt s d now =
          (Inr e0, set_disponible (s\<lparr>emprunts := emprunts s @ [e0]\<rparr>) (dto_livre_id d) False)"
      by blast
    then have "(Inr e0 :: exn + Emprunt,
                set_disponible (s\<lparr>emprunts := emprunts s @ [e0]\<rparr>) (dto_livre_id d) False)
               = (Inr e, s')"
      using assms(1) by (rule trans [OF sym])
    then have both: "e0 = e \<and>
        set_disponible (s\<lparr>emprunts := emprunts s @ [e0]\<rparr>) (dto_livre_id d) False = s'"
      unfolding prod.inject sum.inject .
    from both have e0: "e0 = e" ..
    from both have "set_disponible (s\<lparr>emprunts := emprunts s @ [e0]\<rparr>) (dto_livre_id d) False = s'" ..
    then show ?thesis unfolding e0 by (rule sym)
  qed
  obtain livre where "get_livre_by_id s (dto_livre_id d) = Inr (Some livre)"
  proof (cases "get_livre_by_id s (dto_livre_id d)" rule: lookup_cases)
    case (Overflow x)
    with assms(1) show ?thesis by (simp add: create_emprunt_def)
  next
    case Missing
    with assms(1) show ?thesis by (simp add: create_emprunt_def)
  next
    case (Found l)
    then show ?thesis by (rule that)
  qed
  then have
    "get_livre_by_id (s\<lparr>emprunts := emprunts s @ [e]\<rparr>) (dto_livre_id d) = Inr (Some livre)"
    by (simp add: get_livre_by_id_def)
  then have "get_livre_by_id s' (dto_livre_id d') = Inr (Some (livre\<lparr>disponible := False\<rparr>))"
    unfolding s' assms(2) by (rule get_livre_set_disponible)
  then show ?thesis
    using assms(3) by (simp add: create_emprunt_def)
qed

section \<open>Returning\<close>

text \<open>
  What \<open>retourner_livre\<close> does once its lookup has answered, that is for an id that SQLite
  can bind: HTTP 404 when no book has the id, and HTTP 400 when the flag of the book is
  already \<open>True\<close>; both leave the store as it was. When the book is stored with the flag
  \<open>False\<close> it returns the book with the flag \<open>True\<close>, the store it leaves differs from the
  old one in that flag only, and the loans are the same.
\<close>

lemma retourner_livre_cases:
  "(get_livre_by_id s i = Inr None \<longrightarrow>
      retourner_livre s i = (Inl (HTTPException HTTP_404_NOT_FOUND (Livre_non_trouve i)), s)) \<and>
   (\<forall>l. get_livre_by_id s i = Inr (Some l) \<and> disponible l \<longrightarrow>
      retourner_livre s i =
        (Inl (HTTPException HTTP_400_BAD_REQUEST (Livre_deja_disponible (titre l))), s)) \<and>
   (\<forall>l. get_livre_by_id s i = Inr (Some l) \<and> \<not> disponible l \<longrightarrow>
      retourner_livre s i =
        (Inr (l\<lparr>disponible := True\<rparr>),
         s\<lparr>livres := map (\<lambda>l. if l_id l = i then l\<lparr>disponible := True\<rparr> else l) (livres s)\<rparr>) \<and>
      get_livre_by_id (snd (retourner_livre s i)) i = Inr (Some (l\<lparr>disponible := True\<rparr>)) \<and>
      emprunts (snd (retourner_livre s i)) = emprunts s)"
proof (intro conjI allI impI)
  show "retourner_livre s i = (Inl (HTTPException HTTP_404_NOT_FOUND (Livre_non_trouve i)), s)"
    if "get_livre_by_id s i = Inr None"
    using that by (simp add: retourner_livre_def)
next
  fix l
  assume "get_livre_by_id s i = Inr (Some l) \<and> disponible l"
  then show "retourner_livre s i =
      (Inl (HTTPException HTTP_400_BAD_REQUEST (Livre_deja_disponible (titre l))), s)"
    by (simp add: retourner_livre_def)
next
  fix l
  assume h: "get_livre_by_id s i = Inr (Some l) \<and> \<not> disponible l"
  then have run: "retourner_livre s i = (Inr (l\<lparr>disponible := True\<rparr>), set_disponible s i True)"
    using get_livre_by_id_id [of s i l] by (simp add: retourner_livre_def)
  then show "retourner_livre s i =
        (Inr (l\<lparr>disponible := True\<rparr>),
         s\<lparr>livres := map (\<lambda>l. if l_id l = i then l\<lparr>disponible := True\<rparr> else l) (livres s)\<rparr>)"
    by (simp add: set_disponible_def)
  show "get_livre_by_id (snd (retourner_livre s i)) i = Inr (Some (l\<lparr>disponible := True\<rparr>))"
    unfolding run snd_conv using h by (simp add: get_livre_set_disponible)
  show "emprunts (snd (retourner_livre s i)) = emprunts s"
    unfolding run by (simp add: set_disponible_def)
qed

lemma retourner_livre_cases_witness:
  "get_livre_by_id (seeded True) 2 = Inr None
   \<and> retourner_livre (seeded True) 2
       = (Inl (HTTPException HTTP_404_NOT_FOUND (Livre_non_trouve 2)), seeded True)
   \<and> get_livre_by_id (seeded True) 1 = Inr (Some les_miserables) \<and> disponible les_miserables
   \<and> retourner_livre (seeded True) 1
       = (Inl (HTTPException HTTP_400_BAD_REQUEST (Livre_deja_disponible ''Les Miserables'')),
          seeded True)
   \<and> get_livre_by_id (on_loan True) 1 = Inr (Some (les_miserables\<lparr>disponible := False\<rparr>))
   \<and> retourner_livre (on_loan True) 1
       = (Inr les_miserables, returned True)
   \<and> emprunts (snd (retourner_livre (on_loan True) 1)) = emprunts (on_loan True)"
proof -
  have a: "get_livre_by_id (seeded True) 2 = Inr None"
    by (simp add: lookup_defs seeded_def les_miserables_def)
  have b: "get_livre_by_id (seeded True) 1 = Inr (Some les_miserables) \<and> disponible les_miserables"
    by (simp add: seeded_lookups)
  have c: "get_livre_by_id (on_loan True) 1 = Inr (Some (les_miserables\<lparr>disponible := False\<rparr>))
           \<and> \<not> disponible (les_miserables\<lparr>disponible := False\<rparr>)"
    by (simp add: on_loan_lookups)
  have t: "titre les_miserables = ''Les Miserables''"
    by (simp add: les_miserables_def)
  have u: "(on_loan True)\<lparr>livres := map (\<lambda>l. if l_id l = 1 then l\<lparr>disponible := True\<rparr> else l)
               (livres (on_loan True))\<rparr> = returned True"
    by (simp add: on_loan_def returned_def les_miserables_def)
  have v: "les_miserables\<lparr>disponible := False, disponible := True\<rparr> = les_miserables"
    by (simp add: les_miserables_def)
  from retourner_livre_cases [of "seeded True" 2] a
  have 1: "retourner_livre (seeded True) 2
       = (Inl (HTTPException HTTP_404_NOT_FOUND (Livre_non_trouve 2)), seeded True)"
    by blast
  from retourner_livre_cases [of "seeded True" 1] b t
  have 2: "retourner_livre (seeded True) 1
       = (Inl (HTTPException HTTP_400_BAD_REQUEST (Livre_deja_disponible ''Les Miserables'')),
          seeded True)"
    by metis
  from retourner_livre_cases [of "on_loan True" 1] c
  have 3: "retourner_livre (on_loan True) 1 =
        (Inr (les_miserables\<lparr>disponible := False, disponible := True\<rparr>),
         (on_loan True)\<lparr>livres := map (\<lambda>l. if l_id l = 1 then l\<lparr>disponible := True\<rparr> else l)
            (livres (on_loan True))\<rparr>)"
    and 4: "emprunts (snd (retourner_livre (on_loan True) 1)) = emprunts (on_loan True)"
    by blast+
  from a b c 1 2 3 4 show ?thesis
    unfolding u v by blast
qed

text \<open>
  For an id that SQLite cannot bind the lookup raises before the guard for a missing book
  is reached, and nothing in \<open>retourner_livre\<close> catches it: its \<^verbatim>\<open>try\<close> begins after the
  lookup.
\<close>

lemma retourner_livre_unbound:
  "\<not> sqlite_int i \<Longrightarrow> retourner_livre s i = (Inl OverflowError, s)"
  by (simp add: retourner_livre_def get_livre_by_id_def first_by_id_def)

text \<open>
  Claim C6, evaluated on the seeded store at the id \<open>2\<^sup>6\<^sup>3\<close>: no stored book has that id,
  and \<open>retourner_livre\<close> does not answer HTTP 404. The lookup raises \<^verbatim>\<open>OverflowError\<close>,
  which leaves the service uncaught; the store is as it was.
\<close>

theorem retourner_livre_overflow:
  "9223372036854775808 \<notin> set (map l_id (livres (seeded False)))
   \<and> retourner_livre (seeded False) 9223372036854775808 = (Inl OverflowError, seeded False)
   \<and> retourner_livre (seeded False) 9223372036854775808
        \<noteq> (Inl (HTTPException HTTP_404_NOT_FOUND (Livre_non_trouve 9223372036854775808)),
            seeded False)"
  by (simp add: retourner_livre_def get_livre_by_id_def first_by_id_def sqlite_int_def
      seeded_def les_miserables_def)

section \<open>Borrowers\<close>

text \<open>
  Claim C7. For a stored borrower, \<open>delete_emprunteur\<close> raises an exception exactly when
  the number of loans that refer to the borrower is greater than zero; it is then the
  HTTP 400 exception carrying that number, and the store is left as it was. No flag of any
  book enters the condition. With no such loan it returns the id, and the store it leaves
  is the old one without the borrower.
\<close>

theorem delete_emprunteur_guard:
  assumes "get_emprunteur_by_id s i = Inr (Some b)"
  shows "((\<exists>x. fst (delete_emprunteur s i) = Inl x) = (0 < length (filter (\<lambda>e. emprunteur_id e = i) (emprunts s))))
       \<and> (0 < length (filter (\<lambda>e. emprunteur_id e = i) (emprunts s)) \<longrightarrow>
            delete_emprunteur s i =
              (Inl (HTTPException HTTP_400_BAD_REQUEST
                      (Emprunts_actifs i (length (filter (\<lambda>e. emprunteur_id e = i) (emprunts s))))), s))
       \<and> (length (filter (\<lambda>e. emprunteur_id e = i) (emprunts s)) = 0 \<longrightarrow>
            delete_emprunteur s i =
              (Inr i, s\<lparr>emprunteurs := filter (\<lambda>b. b_id b \<noteq> i) (emprunteurs s)\<rparr>)
            \<and> get_emprunteur_by_id (snd (delete_emprunteur s i)) i = Inr None)"
proof -
  let ?n = "length (filter (\<lambda>e. emprunteur_id e = i) (emprunts s))"
  have found: "first_by_id b_id (emprunteurs s) i = Inr (Some b)"
    using assms by (simp add: get_emprunteur_by_id_def)
  have range: "sqlite_int i"
    using assms by (simp add: get_emprunteur_by_id_find)
  have fails: "delete_emprunteur s i =
      (Inl (HTTPException HTTP_400_BAD_REQUEST (Emprunts_actifs i ?n)), s)" if "0 < ?n"
    using that by (simp add: delete_emprunteur_run [OF found])
  have succeeds: "delete_emprunteur s i =
      (Inr i, s\<lparr>emprunteurs := filter (\<lambda>b. b_id b \<noteq> i) (emprunteurs s)\<rparr>)" if "?n = 0"
    using that by (simp add: delete_emprunteur_run [OF found])
  have gone: "get_emprunteur_by_id (snd (delete_emprunteur s i)) i = Inr None" if "?n = 0"
    unfolding succeeds [OF that] using range
    by (simp add: get_emprunteur_by_id_find find_None_conv)
  have iff: "(\<exists>x. fst (delete_emprunteur s i) = Inl x) = (0 < ?n)"
  proof (cases "0 < ?n")
    case True
    then show ?thesis using fails by simp
  next
    case False
    then have "?n = 0" by simp
    from succeeds [OF this] False show ?thesis by simp
  qed
  from iff fails succeeds gone show ?thesis by blast
qed

theorem delete_emprunteur_guard_witness:
  "get_emprunteur_by_id (returned True) 1 = Inr (Some jean_dupont)
   \<and> get_livre_by_id (returned True) 1 = Inr (Some les_miserables) \<and> disponible les_miserables
   \<and> 0 < length (filter (\<lambda>e. emprunteur_id e = 1) (emprunts (returned True)))
   \<and> delete_emprunteur (returned True) 1
        = (Inl (HTTPException HTTP_400_BAD_REQUEST (Emprunts_actifs 1 1)), returned True)
   \<and> get_emprunteur_by_id (seeded True) 1 = Inr (Some jean_dupont)
   \<and> length (filter (\<lambda>e. emprunteur_id e = 1) (emprunts (seeded True))) = 0
   \<and> delete_emprunteur (seeded True) 1 = (Inr 1, (seeded True)\<lparr>emprunteurs := []\<rparr>)"
proof -
  have a: "get_emprunteur_by_id (returned True) 1 = Inr (Some jean_dupont)"
    and a': "get_livre_by_id (returned True) 1 = Inr (Some les_miserables) \<and> disponible les_miserables"
    by (simp_all add: lookup_defs returned_def jean_dupont_def
        les_miserables_def)
  have n1: "length (filter (\<lambda>e. emprunteur_id e = 1) (emprunts (returned True))) = 1"
    by (simp add: returned_def premier_emprunt_def)
  have b: "get_emprunteur_by_id (seeded True) 1 = Inr (Some jean_dupont)"
    by (rule seeded_lookups)
  have n0: "length (filter (\<lambda>e. emprunteur_id e = 1) (emprunts (seeded True))) = 0"
    by (simp add: seeded_def)
  have f: "filter (\<lambda>b. b_id b \<noteq> 1) (emprunteurs (seeded True)) = []"
    by (simp add: seeded_def jean_dupont_def)
  from delete_emprunteur_guard [OF a] n1
  have 1: "delete_emprunteur (returned True) 1
        = (Inl (HTTPException HTTP_400_BAD_REQUEST (Emprunts_actifs 1 1)), returned True)"
    by simp
  from delete_emprunteur_guard [OF b] n0 f
  have 2: "delete_emprunteur (seeded True) 1 = (Inr 1, (seeded True)\<lparr>emprunteurs := []\<rparr>)"
    by simp
  from a a' n1 b n0 1 2 show ?thesis by simp
qed

text \<open>
  Claim C8. When a stored borrower has the e-mail address of the request,
  \<open>create_emprunteur\<close> raises the HTTP 400 exception for the duplicate address and leaves
  the store as it was. Otherwise it returns a borrower with the name and the address of the
  request and a key no stored borrower had, and the store it leaves is the old one with
  that one borrower appended.
\<close>

theorem create_emprunteur_unique_email:
  "(new_email d \<in> email ` set (emprunteurs s) \<longrightarrow>
      create_emprunteur s d now =
        (Inl (HTTPException HTTP_400_BAD_REQUEST (Email_existe_deja (new_email d))), s)) \<and>
   (new_email d \<notin> email ` set (emprunteurs s) \<longrightarrow>
      (\<exists>b. create_emprunteur s d now = (Inr b, s\<lparr>emprunteurs := emprunteurs s @ [b]\<rparr>)
           \<and> nom b = new_nom d \<and> email b = new_email d
           \<and> b_id b \<notin> b_id ` set (emprunteurs s)))"
proof (intro conjI impI)
  assume "new_email d \<in> email ` set (emprunteurs s)"
  then have "find (\<lambda>b. email b = new_email d) (emprunteurs s) \<noteq> None"
    by (auto simp: find_None_conv)
  then show "create_emprunteur s d now =
        (Inl (HTTPException HTTP_400_BAD_REQUEST (Email_existe_deja (new_email d))), s)"
    by (auto simp: create_emprunteur_def get_emprunteur_by_email_def)
next
  let ?b = "\<lparr>b_id = next_id (map b_id (emprunteurs s)), nom = new_nom d, email = new_email d,
             b_date_creation = now\<rparr>"
  assume new: "new_email d \<notin> email ` set (emprunteurs s)"
  then have "find (\<lambda>b. email b = new_email d) (emprunteurs s) = None"
    unfolding find_None_conv by force
  then have run: "create_emprunteur s d now = (Inr ?b, s\<lparr>emprunteurs := emprunteurs s @ [?b]\<rparr>)"
    using insert_emprunteur_ok [OF new]
    by (simp add: create_emprunteur_def get_emprunteur_by_email_def)
  have "b_id ?b \<notin> b_id ` set (emprunteurs s)"
    using next_id_fresh [of _ "map b_id (emprunteurs s)"] by fastforce
  with run show "\<exists>b. create_emprunteur s d now = (Inr b, s\<lparr>emprunteurs := emprunteurs s @ [b]\<rparr>)
           \<and> nom b = new_nom d \<and> email b = new_email d
           \<and> b_id b \<notin> b_id ` set (emprunteurs s)"
    by (intro exI [of _ ?b]) simp
qed

theorem create_emprunteur_unique_email_witness:
  "new_email homonyme \<in> email ` set (emprunteurs (seeded True))
   \<and> create_emprunteur (seeded True) homonyme 3 =
        (Inl (HTTPException HTTP_400_BAD_REQUEST (Email_existe_deja (new_email homonyme))),
         seeded True)
   \<and> new_email marie_martin \<notin> email ` set (emprunteurs (seeded True))
   \<and> (\<exists>b. create_emprunteur (seeded True) marie_martin 3 =
            (Inr b, (seeded True)\<lparr>emprunteurs := emprunteurs (seeded True) @ [b]\<rparr>)
          \<and> nom b = new_nom marie_martin \<and> email b = new_email marie_martin
          \<and> b_id b \<notin> b_id ` set (emprunteurs (seeded True)))"
proof -
  have a: "new_email homonyme \<in> email ` set (emprunteurs (seeded True))"
    by (simp add: homonyme_def seeded_def jean_dupont_def)
  have b: "new_email marie_martin \<notin> email ` set (emprunteurs (seeded True))"
    by (simp add: marie_martin_def seeded_def jean_dupont_def)
  from create_emprunteur_unique_email [of homonyme "seeded True" 3]
    create_emprunteur_unique_email [of marie_martin "seeded True" 3] a b
  show ?thesis by blast
qed

section \<open>Updating a book\<close>

lemma setattr_all_ok:
  assumes "upd_titre d \<noteq> Explicit_None" "upd_auteur d \<noteq> Explicit_None"
    "upd_annee_publication d \<noteq> Explicit_None" "upd_disponible d = Given b"
  shows "\<exists>t a y. setattr_all d l =
           \<lparr>a_titre = Some t, a_auteur = Some a, a_annee_publication = Some y, a_disponible = Some b\<rparr>"
  using assms
  by (cases "upd_titre d"; cases "upd_auteur d"; cases "upd_annee_publication d")
     (simp_all add: setattr_all_def setattr_field_def)

text \<open>
  Claim C10, as amended. For every stored book and every boolean \<open>b\<close>, \<open>update_livre\<close>
  with a payload whose \<open>disponible\<close> field is \<open>b\<close> and none of whose other fields is an
  explicit \<open>null\<close> returns the book with the flag \<open>b\<close> and stores it so. The loans and the
  borrowers of the store are as before, and the outcome is the same whatever the loans
  table holds: no loan is created, deleted or read.
\<close>

theorem update_livre_sets_flag:
  assumes "get_livre_by_id s i = Inr (Some l)"
    and "upd_disponible d = Given b"
    and "upd_titre d \<noteq> Explicit_None"
    and "upd_auteur d \<noteq> Explicit_None"
    and "upd_annee_publication d \<noteq> Explicit_None"
  shows "\<exists>l' s'. update_livre s i d = (Inr l', s')
           \<and> disponible l' = b \<and> l_id l' = i
           \<and> get_livre_by_id s' i = Inr (Some l')
           \<and> emprunts s' = emprunts s \<and> emprunteurs s' = emprunteurs s
           \<and> (\<forall>es. update_livre (s\<lparr>emprunts := es\<rparr>) i d = (Inr l', s'\<lparr>emprunts := es\<rparr>))"
proof -
  have lid: "l_id l = i"
    using assms(1) by (rule get_livre_by_id_id)
  from setattr_all_ok [OF assms(3,4,5,2)] obtain t a y where
    attrs: "setattr_all d l =
      \<lparr>a_titre = Some t, a_auteur = Some a, a_annee_publication = Some y, a_disponible = Some b\<rparr>"
    by blast
  have row: "update_livre_row s i (setattr_all d l) =
           Inr (s\<lparr>livres := map (\<lambda>l. if l_id l = i then write_attrs l t a y b else l) (livres s)\<rparr>)"
    for s
    unfolding attrs by (simp add: update_livre_row_def)
  let ?s' = "s\<lparr>livres := map (\<lambda>l. if l_id l = i then write_attrs l t a y b else l) (livres s)\<rparr>"
  let ?l' = "write_attrs l t a y b"
  have range: "sqlite_int i" and "find (\<lambda>l. l_id l = i) (livres s) = Some l"
    using assms(1) by (simp_all add: get_livre_by_id_find)
  then have found': "find (\<lambda>l. l_id l = i)
                       (map (\<lambda>l. if l_id l = i then write_attrs l t a y b else l) (livres s))
                     = Some ?l'"
    by (intro find_map_update) (simp_all add: write_attrs_def)
  have after: "get_livre_by_id s'' i = Inr (Some ?l')"
    and refreshed: "refresh_livre s'' l = Some ?l'"
    if "livres s'' = map (\<lambda>l. if l_id l = i then write_attrs l t a y b else l) (livres s)" for s''
    using that range found' lid by (simp_all add: get_livre_by_id_find refresh_livre_def)
  have after0: "get_livre_by_id ?s' i = Inr (Some ?l')"
    by (rule after) simp
  have before: "\<And>es. get_livre_by_id (s\<lparr>emprunts := es\<rparr>) i = Inr (Some l)"
    using assms(1) by (simp add: get_livre_by_id_def)
  have run: "update_livre s i d = (Inr ?l', ?s')"
    using assms(1) lid row [of s] by (simp add: update_livre_def refreshed)
  have run': "update_livre (s\<lparr>emprunts := es\<rparr>) i d = (Inr ?l', ?s'\<lparr>emprunts := es\<rparr>)" for es
    using before [of es] lid row [of "s\<lparr>emprunts := es\<rparr>"]
    by (simp add: update_livre_def refreshed)
  show ?thesis
    using run run' after0 lid
    by (intro exI [of _ ?l'] exI [of _ ?s']) (simp add: write_attrs_def)
qed

theorem update_livre_sets_flag_witness:
  "get_livre_by_id (on_loan True) 1 = Inr (Some (les_miserables\<lparr>disponible := False\<rparr>))
   \<and> upd_disponible remettre = Given True
   \<and> upd_titre remettre \<noteq> Explicit_None \<and> upd_auteur remettre \<noteq> Explicit_None
   \<and> upd_annee_publication remettre \<noteq> Explicit_None
   \<and> (\<exists>l' s'. update_livre (on_loan True) 1 remettre = (Inr l', s')
           \<and> disponible l' = True \<and> l_id l' = 1
           \<and> get_livre_by_id s' 1 = Inr (Some l')
           \<and> emprunts s' = emprunts (on_loan True) \<and> emprunteurs s' = emprunteurs (on_loan True)
           \<and> (\<forall>es. update_livre ((on_loan True)\<lparr>emprunts := es\<rparr>) 1 remettre
                      = (Inr l', s'\<lparr>emprunts := es\<rparr>)))"
proof -
  have h1: "get_livre_by_id (on_loan True) 1 = Inr (Some (les_miserables\<lparr>disponible := False\<rparr>))"
    by (rule on_loan_lookups)
  have h2: "upd_disponible remettre = Given True"
    and h3: "upd_titre remettre \<noteq> Explicit_None"
    and h4: "upd_auteur remettre \<noteq> Explicit_None"
    and h5: "upd_annee_publication remettre \<noteq> Explicit_None"
    by (simp_all add: remettre_def)
  from update_livre_sets_flag [OF h1 h2 h3 h4 h5] h1 h2 h3 h4 h5
  show ?thesis by blast
qed

text \<open>
  Claim C10, as stated, fails for a payload that carries \<open>disponible = False\<close> together
  with \<open>titre = null\<close>: the commit violates \<open>NOT NULL\<close>, the service answers HTTP 400 and
  the flag of the book is still \<open>True\<close>.
\<close>

theorem update_livre_null_field_counterexample:
  "get_livre_by_id (seeded True) 1 = Inr (Some les_miserables)
   \<and> upd_disponible retirer_sans_titre = Given False
   \<and> update_livre (seeded True) 1 retirer_sans_titre =
       (Inl (HTTPException HTTP_400_BAD_REQUEST Erreur_mise_a_jour_livre), seeded True)
   \<and> map disponible (livres (snd (update_livre (seeded True) 1 retirer_sans_titre))) = [True]"
  by (simp add: update_livre_def update_livre_row_def setattr_all_def setattr_field_def
      lookup_defs seeded_def les_miserables_def retirer_sans_titre_def)

lemma update_livre_retirer:
  "update_livre (seeded True) 1 retirer =
     (Inr (les_miserables\<lparr>disponible := False\<rparr>),
      (seeded True)\<lparr>livres := [les_miserables\<lparr>disponible := False\<rparr>]\<rparr>)"
  by (simp add: update_livre_def update_livre_row_def setattr_all_def setattr_field_def
      write_attrs_def lookup_defs seeded_def les_miserables_def retirer_def)

section \<open>Deleting a book\<close>

text \<open>
  Claim C3, evaluated on the store in which Les Miserables is on loan to Jean Dupont,
  with foreign keys enforced: \<open>delete_livre\<close> returns \<open>True\<close>, and both the book and the
  loan that referred to it are gone.
\<close>

theorem delete_livre_with_loan_succeeds:
  "get_livre_by_id (on_loan True) 1 = Inr (Some (les_miserables\<lparr>disponible := False\<rparr>))
   \<and> premier_emprunt \<in> set (emprunts (on_loan True)) \<and> livre_id premier_emprunt = 1
   \<and> delete_livre (on_loan True) 1 =
       (Inr True, \<lparr>livres = [], emprunteurs = [jean_dupont], emprunts = [], foreign_keys = True\<rparr>)"
  by (simp add: delete_livre_def delete_livre_cascade_def lookup_defs on_loan_def
      les_miserables_def premier_emprunt_def Let_def)

text \<open>
  Claim C4, evaluated on the store in which Les Miserables has come back and its loan
  remains as history: \<open>delete_livre\<close> succeeds and the loans table is empty afterwards.
\<close>

theorem delete_livre_deletes_loans:
  "emprunts (returned False) = [premier_emprunt]
   \<and> fst (delete_livre (returned False) 1) = Inr True
   \<and> emprunts (snd (delete_livre (returned False) 1)) = []"
  by (simp add: delete_livre_def delete_livre_cascade_def lookup_defs returned_def
      les_miserables_def premier_emprunt_def Let_def)

text \<open>
  Every request other than the deletion of a book leaves the stored loans in place and
  unchanged; it can only append to them.
\<close>

lemma serve_keeps_loans:
  assumes "\<forall>i. r \<noteq> Delete_livre i"
  shows "\<exists>new. emprunts (fst (serve r (s, h))) = emprunts s @ new"
proof (cases r)
  case (Create_livre d now)
  from create_livre_effect [of s d now] show ?thesis
    unfolding Create_livre by auto
next
  case (Update_livre i d)
  then show ?thesis by (simp add: update_livre_loans)
next
  case (Delete_livre i)
  with assms show ?thesis by simp
next
  case (Set_livre_disponibilite i b)
  then show ?thesis by (simp add: set_livre_disponibilite_loans)
next
  case (Create_emprunteur d now)
  then show ?thesis by (simp add: create_emprunteur_effect)
next
  case (Delete_emprunteur i)
  then show ?thesis by (simp add: delete_emprunteur_effect)
next
  case (Create_emprunt d now)
  from create_emprunt_effect [of s d now] show ?thesis
    unfolding Create_emprunt by (auto simp: set_disponible_def)
next
  case (Retourner_livre i)
  from retourner_livre_effect [of s i] show ?thesis
    unfolding Retourner_livre by (auto simp: set_disponible_def)
qed

section \<open>Listing\<close>

lemma offset_limit_length:
  "0 \<le> limit \<Longrightarrow> length (offset_limit skip limit rows) \<le> nat limit"
  by (simp add: offset_limit_def)

text \<open>
  Claim C9, evaluated on a catalogue of 150 books: a request with \<open>skip = 0\<close> and
  \<open>limit = 150\<close> gets all 150 records, the books \<open>1\<close> to \<open>150\<close>, through the router as well as
  from the service.
\<close>

theorem get_livres_over_100:
  "length (livres (catalogue 150)) = 150
   \<and> length (route_get_livres (catalogue 150) 0 150) = 150
   \<and> length (get_livres (catalogue 150) 0 150) = 150
   \<and> map l_id (route_get_livres (catalogue 150) 0 150) = map int [1..<151]"
proof -
  have "map (\<lambda>k. int k + 1) [0..<150] = map int (map Suc [0..<150])"
    by simp
  also have "map Suc [0..<150] = [1..<151]"
    by (simp add: map_Suc_upt)
  finally show ?thesis
    by (simp add: route_get_livres_def get_livres_def offset_limit_def catalogue_def comp_def)
qed

section \<open>The availability flag and the loan history\<close>

lemma consistent_same_tables:
  assumes "consistent (s, h)" "livres s' = livres s" "emprunts s' = emprunts s"
  shows "consistent (s', h)"
  using assms
  by (simp add: consistent_def flag_matches_loans_def has_unreversed_loan_def
      loans_refer_to_books_def)

lemma consistent_create_livre:
  assumes "consistent (s, h)" "l_id row = next_id (map l_id (livres s))" "disponible row"
  shows "consistent (s\<lparr>livres := livres s @ [row]\<rparr>, h)"
proof -
  have refer: "\<forall>e\<in>set (emprunts s). livre_id e \<in> set (map l_id (livres s))"
    using assms(1) by (simp add: consistent_def loans_refer_to_books_def)
  have "\<not> has_unreversed_loan (s\<lparr>livres := livres s @ [row]\<rparr>, h) (l_id row)"
  proof
    assume "has_unreversed_loan (s\<lparr>livres := livres s @ [row]\<rparr>, h) (l_id row)"
    then obtain e where "e \<in> set (emprunts s)" "livre_id e = l_id row"
      by (auto simp: has_unreversed_loan_def)
    with refer have "l_id row \<in> set (map l_id (livres s))" by metis
    from next_id_fresh [OF this] assms(2) show False by simp
  qed
  moreover have "has_unreversed_loan (s\<lparr>livres := livres s @ [row]\<rparr>, h) i
                   = has_unreversed_loan (s, h) i" for i
    by (simp add: has_unreversed_loan_def)
  ultimately have "flag_matches_loans (s\<lparr>livres := livres s @ [row]\<rparr>, h)"
    using assms(1,3) by (simp add: consistent_def flag_matches_loans_def)
  moreover have "loans_refer_to_books (s\<lparr>livres := livres s @ [row]\<rparr>)"
    using refer by (auto simp: loans_refer_to_books_def)
  ultimately show ?thesis
    using assms(1) by (simp add: consistent_def)
qed

lemma consistent_update_livre:
  assumes "consistent (s, h)" "get_livre_by_id s i = Inr (Some l0)"
  shows "consistent
           (s\<lparr>livres := map (\<lambda>l. if l_id l = i then write_attrs l t a y (disponible l0) else l)
                           (livres s)\<rparr>, h)"
proof -
  let ?f = "\<lambda>l. if l_id l = i then write_attrs l t a y (disponible l0) else l"
  have l0: "l0 \<in> set (livres s)" "l_id l0 = i"
    using assms(2) by (auto dest: get_livre_by_id_mem get_livre_by_id_id)
  have flags: "\<forall>l\<in>set (livres s). (\<not> disponible l) = has_unreversed_loan (s, h) (l_id l)"
    using assms(1) by (simp add: consistent_def flag_matches_loans_def)
  have same: "l_id (?f l) = l_id l \<and> disponible (?f l) = disponible l" if "l \<in> set (livres s)" for l
  proof (cases "l_id l = i")
    case True
    with flags that l0 have "disponible l = disponible l0" by metis
    with True show ?thesis by (simp add: write_attrs_def)
  next
    case False
    then show ?thesis by simp
  qed
  have ids: "map l_id (map ?f (livres s)) = map l_id (livres s)"
    using same by (simp add: map_idI)
  have loans: "has_unreversed_loan (s\<lparr>livres := map ?f (livres s)\<rparr>, h) j
                 = has_unreversed_loan (s, h) j" for j
    by (simp add: has_unreversed_loan_def)
  have "flag_matches_loans (s\<lparr>livres := map ?f (livres s)\<rparr>, h)"
    unfolding flag_matches_loans_def loans
  proof
    fix l'
    assume "l' \<in> set (livres (fst (s\<lparr>livres := map ?f (livres s)\<rparr>, h)))"
    then obtain l where l: "l \<in> set (livres s)" and l': "l' = ?f l"
      by auto
    from same [OF l] flags l show "(\<not> disponible l') = has_unreversed_loan (s, h) (l_id l')"
      unfolding l' by metis
  qed
  moreover have "loans_refer_to_books (s\<lparr>livres := map ?f (livres s)\<rparr>)"
    using assms(1) ids by (simp add: consistent_def loans_refer_to_books_def del: map_map)
  ultimately show ?thesis
    using assms(1) by (simp add: consistent_def)
qed

lemma consistent_delete_livre:
  assumes "consistent (s, h)"
  shows "consistent (s\<lparr>emprunts := filter (\<lambda>e. livre_id e \<noteq> i) (emprunts s),
                       livres := filter (\<lambda>l. l_id l \<noteq> i) (livres s)\<rparr>, h)"
proof -
  let ?s' = "s\<lparr>emprunts := filter (\<lambda>e. livre_id e \<noteq> i) (emprunts s),
               livres := filter (\<lambda>l. l_id l \<noteq> i) (livres s)\<rparr>"
  have loans: "has_unreversed_loan (?s', h) j = has_unreversed_loan (s, h) j" if "j \<noteq> i" for j
    using that by (auto simp: has_unreversed_loan_def)
  have "flag_matches_loans (?s', h)"
    using assms loans by (auto simp: consistent_def flag_matches_loans_def)
  moreover have "loans_refer_to_books ?s'"
    using assms by (auto simp: consistent_def loans_refer_to_books_def)
  moreover have "distinct (map e_id (emprunts ?s'))"
    using assms by (simp add: consistent_def distinct_map_filter)
  ultimately show ?thesis by (simp add: consistent_def)
qed

lemma consistent_create_emprunt:
  assumes "consistent (s, h)" "i \<in> l_id ` set (livres s)" "livre_id e = i"
    "e_id e = next_id (map e_id (emprunts s))"
  shows "consistent (set_disponible (s\<lparr>emprunts := emprunts s @ [e]\<rparr>) i False, e_id e # h)"
proof -
  let ?s' = "set_disponible (s\<lparr>emprunts := emprunts s @ [e]\<rparr>) i False"
  have fresh: "e_id e' \<noteq> e_id e" if "e' \<in> set (emprunts s)" for e'
    using next_id_fresh [of "e_id e'" "map e_id (emprunts s)"] that assms(4) by auto
  have em: "emprunts ?s' = emprunts s @ [e]"
    by (simp add: set_disponible_def)
  have li: "livres ?s' = map (\<lambda>l. if l_id l = i then l\<lparr>disponible := False\<rparr> else l) (livres s)"
    by (simp add: set_disponible_def)
  have here: "has_unreversed_loan (?s', e_id e # h) i"
    using assms(3) by (auto simp: has_unreversed_loan_def em)
  have other: "has_unreversed_loan (?s', e_id e # h) j = has_unreversed_loan (s, h) j"
    if "j \<noteq> i" for j
    using that assms(3) fresh by (auto simp: has_unreversed_loan_def em)
  have flags: "\<forall>l\<in>set (livres s). (\<not> disponible l) = has_unreversed_loan (s, h) (l_id l)"
    using assms(1) by (simp add: consistent_def flag_matches_loans_def)
  have "flag_matches_loans (?s', e_id e # h)"
    unfolding flag_matches_loans_def fst_conv li
  proof
    fix l'
    assume "l' \<in> set (map (\<lambda>l. if l_id l = i then l\<lparr>disponible := False\<rparr> else l) (livres s))"
    then obtain l where l: "l \<in> set (livres s)"
      and l': "l' = (if l_id l = i then l\<lparr>disponible := False\<rparr> else l)"
      by auto
    show "(\<not> disponible l') = has_unreversed_loan (?s', e_id e # h) (l_id l')"
    proof (cases "l_id l = i")
      case True
      with l' here show ?thesis by simp
    next
      case False
      with l' l flags other [of "l_id l"] show ?thesis by simp
    qed
  qed
  moreover have "loans_refer_to_books ?s'"
  proof -
    have "map l_id (livres ?s') = map l_id (livres s)"
      unfolding li by (simp add: comp_def if_distrib [of l_id] cong: if_cong)
    then show ?thesis
      using assms(1,2,3) by (auto simp: consistent_def loans_refer_to_books_def em)
  qed
  moreover have "distinct (map e_id (emprunts ?s'))"
  proof -
    have "e_id e \<notin> set (map e_id (emprunts s))"
      using fresh by fastforce
    moreover have "distinct (map e_id (emprunts s))"
      using assms(1) by (simp add: consistent_def)
    ultimately show ?thesis by (simp add: em)
  qed
  ultimately show ?thesis by (simp add: consistent_def)
qed

lemma consistent_retourner_livre:
  assumes "consistent (s, h)"
  shows "consistent (set_disponible s i True,
           filter (\<lambda>k. k \<notin> set (map e_id (filter (\<lambda>e. livre_id e = i) (emprunts s)))) h)"
proof -
  let ?s' = "set_disponible s i True"
  let ?h' = "filter (\<lambda>k. k \<notin> set (map e_id (filter (\<lambda>e. livre_id e = i) (emprunts s)))) h"
  have dist: "distinct (map e_id (emprunts s))"
    using assms by (simp add: consistent_def)
  have em: "emprunts ?s' = emprunts s"
    by (simp add: set_disponible_def)
  have li: "livres ?s' = map (\<lambda>l. if l_id l = i then l\<lparr>disponible := True\<rparr> else l) (livres s)"
    by (simp add: set_disponible_def)
  have here: "\<not> has_unreversed_loan (?s', ?h') i"
    by (auto simp: has_unreversed_loan_def em)
  have same_book: "livre_id e' = livre_id e"
    if "e \<in> set (emprunts s)" "e' \<in> set (emprunts s)" "e_id e' = e_id e" for e e'
    using that dist by (auto simp: distinct_map dest: inj_onD)
  have keep: "(e_id e \<in> set ?h') = (e_id e \<in> set h)"
    if e: "e \<in> set (emprunts s)" and ne: "livre_id e \<noteq> i" for e
  proof -
    have "e_id e \<notin> set (map e_id (filter (\<lambda>e. livre_id e = i) (emprunts s)))"
    proof
      assume "e_id e \<in> set (map e_id (filter (\<lambda>e. livre_id e = i) (emprunts s)))"
      then obtain e' where e': "e' \<in> set (emprunts s)" "livre_id e' = i" "e_id e' = e_id e"
        by auto
      from same_book [OF e e'(1) e'(3)] e'(2) ne show False by simp
    qed
    then show ?thesis by simp
  qed
  have other: "has_unreversed_loan (?s', ?h') j = has_unreversed_loan (s, h) j" if "j \<noteq> i" for j
    unfolding has_unreversed_loan_def fst_conv snd_conv em
    using keep that by blast
  have flags: "\<forall>l\<in>set (livres s). (\<not> disponible l) = has_unreversed_loan (s, h) (l_id l)"
    using assms(1) by (simp add: consistent_def flag_matches_loans_def)
  have "flag_matches_loans (?s', ?h')"
    unfolding flag_matches_loans_def fst_conv li
  proof
    fix l'
    assume "l' \<in> set (map (\<lambda>l. if l_id l = i then l\<lparr>disponible := True\<rparr> else l) (livres s))"
    then obtain l where l: "l \<in> set (livres s)"
      and l': "l' = (if l_id l = i then l\<lparr>disponible := True\<rparr> else l)"
      by auto
    show "(\<not> disponible l') = has_unreversed_loan (?s', ?h') (l_id l')"
    proof (cases "l_id l = i")
      case True
      with l' here show ?thesis by simp
    next
      case False
      with l' l flags other [of "l_id l"] show ?thesis by simp
    qed
  qed
  moreover have "loans_refer_to_books ?s'"
  proof -
    have "map l_id (livres ?s') = map l_id (livres s)"
      unfolding li by (simp add: comp_def if_distrib [of l_id] cong: if_cong)
    then show ?thesis
      using assms(1) by (auto simp: consistent_def loans_refer_to_books_def em)
  qed
  ultimately show ?thesis using dist by (simp add: consistent_def em)
qed

lemma consistent_serve:
  assumes "consistent st" "\<not> sets_flag r"
  shows "consistent (serve r st)"
proof -
  obtain s h where st: "st = (s, h)" by (cases st)
  note c = assms(1) [unfolded st]
  show ?thesis
  proof (cases r)
    case (Create_livre d now)
    from create_livre_effect [of s d now] obtain row where
      run: "create_livre s d now = (Inr row, s\<lparr>livres := livres s @ [row]\<rparr>)"
      and row: "l_id row = next_id (map l_id (livres s))" "disponible row"
      by blast
    have "serve r st = (s\<lparr>livres := livres s @ [row]\<rparr>, h)"
      unfolding st Create_livre by (simp add: run)
    with consistent_create_livre [OF c row] show ?thesis by simp
  next
    case (Update_livre i d)
    with assms(2) have unset: "upd_disponible d = Unset" by simp
    have serve: "serve r st = (snd (update_livre s i d), h)"
      unfolding st Update_livre by simp
    from update_livre_effect [OF unset, of s i] show ?thesis
    proof
      assume "snd (update_livre s i d) = s"
      with serve c show ?thesis by simp
    next
      assume "\<exists>l0 t a y. get_livre_by_id s i = Inr (Some l0) \<and>
            snd (update_livre s i d) =
              s\<lparr>livres := map (\<lambda>l. if l_id l = i then write_attrs l t a y (disponible l0) else l)
                             (livres s)\<rparr>"
      then obtain l0 t a y where l0: "get_livre_by_id s i = Inr (Some l0)"
        and s': "snd (update_livre s i d) =
              s\<lparr>livres := map (\<lambda>l. if l_id l = i then write_attrs l t a y (disponible l0) else l)
                             (livres s)\<rparr>"
        by blast
      from consistent_update_livre [OF c l0, of t a y] show ?thesis
        unfolding serve s' .
    qed
  next
    case (Delete_livre i)
    have serve: "serve r st = (snd (delete_livre s i), h)"
      unfolding st Delete_livre by simp
    from delete_livre_effect [of s i] show ?thesis
    proof
      assume "snd (delete_livre s i) = s"
      with serve c show ?thesis by simp
    next
      assume s': "snd (delete_livre s i) =
        s\<lparr>emprunts := filter (\<lambda>e. livre_id e \<noteq> i) (emprunts s),
          livres := filter (\<lambda>l. l_id l \<noteq> i) (livres s)\<rparr>"
      from consistent_delete_livre [OF c, of i] show ?thesis
        unfolding serve s' .
    qed
  next
    case (Set_livre_disponibilite i b)
    with assms(2) show ?thesis by simp
  next
    case (Create_emprunteur d now)
    have serve: "serve r st = (snd (create_emprunteur s d now), h)"
      unfolding st Create_emprunteur by simp
    from create_emprunteur_effect [of s d now] show ?thesis
      unfolding serve by (intro consistent_same_tables [OF c]) simp_all
  next
    case (Delete_emprunteur i)
    have serve: "serve r st = (snd (delete_emprunteur s i), h)"
      unfolding st Delete_emprunteur by simp
    from delete_emprunteur_effect [of s i] show ?thesis
      unfolding serve by (intro consistent_same_tables [OF c]) simp_all
  next
    case (Create_emprunt d now)
    from create_emprunt_effect [of s d now] show ?thesis
    proof
      assume "\<exists>x. create_emprunt s d now = (Inl x, s)"
      then obtain x where "create_emprunt s d now = (Inl x, s)" by blast
      then have "serve r st = (s, h)"
        unfolding st Create_emprunt by simp
      with c show ?thesis by simp
    next
      assume "\<exists>e. create_emprunt s d now =
          (Inr e, set_disponible (s\<lparr>emprunts := emprunts s @ [e]\<rparr>) (dto_livre_id d) False)
        \<and> livre_id e = dto_livre_id d
        \<and> e_id e = next_id (map e_id (emprunts s))
        \<and> dto_livre_id d \<in> l_id ` set (livres s)"
      then obtain e where run: "create_emprunt s d now =
          (Inr e, set_disponible (s\<lparr>emprunts := emprunts s @ [e]\<rparr>) (dto_livre_id d) False)"
        and e: "livre_id e = dto_livre_id d" "e_id e = next_id (map e_id (emprunts s))"
        and mem: "dto_livre_id d \<in> l_id ` set (livres s)"
        by blast
      have "serve r st =
              (set_disponible (s\<lparr>emprunts := emprunts s @ [e]\<rparr>) (dto_livre_id d) False, e_id e # h)"
        unfolding st Create_emprunt by (simp add: run)
      with consistent_create_emprunt [OF c mem e] show ?thesis by simp
    qed
  next
    case (Retourner_livre i)
    from retourner_livre_effect [of s i] show ?thesis
    proof
      assume "\<exists>x. retourner_livre s i = (Inl x, s)"
      then obtain x where "retourner_livre s i = (Inl x, s)" by blast
      then have "serve r st = (s, h)"
        unfolding st Retourner_livre by simp
      with c show ?thesis by simp
    next
      assume "\<exists>l. retourner_livre s i = (Inr l, set_disponible s i True)"
      then obtain l where run: "retourner_livre s i = (Inr l, set_disponible s i True)" by blast
      have "serve r st = (set_disponible s i True,
           filter (\<lambda>k. k \<notin> set (map e_id (filter (\<lambda>e. livre_id e = i) (emprunts s)))) h)"
        unfolding st Retourner_livre by (simp add: run)
      with consistent_retourner_livre [OF c, of i] show ?thesis by simp
    qed
  qed
qed

lemma consistent_serve_all:
  "consistent st \<Longrightarrow> \<forall>r\<in>set rs. \<not> sets_flag r \<Longrightarrow> consistent (serve_all rs st)"
  unfolding serve_all_def
  by (induction rs arbitrary: st) (simp_all add: consistent_serve)

lemma consistent_empty_store: "consistent (empty_store fk)"
  by (simp add: consistent_def empty_store_def flag_matches_loans_def loans_refer_to_books_def)

text \<open>
  Claim C2, as amended. In every state reached from the empty store by requests none of
  which writes the flag from its own data (no \<open>update_livre\<close> whose payload carries a
  \<open>disponible\<close> field, no \<open>set_livre_disponibilite\<close>), the flag of a stored book is
  \<open>False\<close> exactly when the book has a loan that no later return of the book has reversed.
\<close>

theorem flag_matches_loans_reachable:
  assumes "\<forall>r\<in>set rs. \<not> sets_flag r"
  shows "flag_matches_loans (serve_all rs (empty_store fk))"
  using consistent_serve_all [OF consistent_empty_store assms] by (simp add: consistent_def)

lemmas eval_defs = serve_all_def empty_store_def create_livre_def insert_livre_def
  create_emprunteur_def insert_emprunteur_def get_emprunteur_by_email_def
  create_emprunt_def insert_emprunt_def set_disponible_def retourner_livre_def
  update_livre_def update_livre_row_def setattr_all_def setattr_field_def write_attrs_def
  lookup_defs next_id_def Let_def
  les_miserables_dto_def jean_dupont_dto_def demande_def retirer_def retitrer_def

lemma journee_state:
  "serve_all journee (empty_store True) =
     (\<lparr>livres = [les_miserables\<lparr>disponible := False\<rparr>], emprunteurs = [jean_dupont],
       emprunts = [premier_emprunt, premier_emprunt\<lparr>e_id := 2\<rparr>], foreign_keys = True\<rparr>, [2])"
  by (simp add: journee_def eval_defs les_miserables_def jean_dupont_def premier_emprunt_def)

theorem flag_matches_loans_reachable_witness:
  "list_all (\<lambda>r. \<not> sets_flag r) journee
   \<and> flag_matches_loans (serve_all journee (empty_store True))
   \<and> \<not> disponible (les_miserables\<lparr>disponible := False\<rparr>)
   \<and> has_unreversed_loan (serve_all journee (empty_store True)) 1"
proof -
  have h: "\<forall>r\<in>set journee. \<not> sets_flag r"
    by (simp add: journee_def retitrer_def)
  have "has_unreversed_loan (serve_all journee (empty_store True)) 1"
    unfolding journee_state by (simp add: has_unreversed_loan_def premier_emprunt_def)
  with flag_matches_loans_reachable [OF h, of True] h show ?thesis
    by (simp add: list_all_iff)
qed

text \<open>
  Claim C2, as stated, fails after two requests: a book is created and \<open>update_livre\<close>
  sets its flag to \<open>False\<close>. The store holds no loan at all, and the flag is down.
\<close>

theorem flag_without_loan_counterexample:
  "serve_all [Create_livre les_miserables_dto 0, Update_livre 1 retirer] (empty_store True)
     = (\<lparr>livres = [les_miserables\<lparr>disponible := False\<rparr>], emprunteurs = [], emprunts = [],
         foreign_keys = True\<rparr>, [])
   \<and> \<not> flag_matches_loans
         (serve_all [Create_livre les_miserables_dto 0, Update_livre 1 retirer] (empty_store True))"
  by (simp add: eval_defs flag_matches_loans_def has_unreversed_loan_def les_miserables_def)

end
